theory Spec2Isabelle
  imports Main "HOL-Library.Word"
begin

unbundle bit_operations_syntax

section \<open>hts: the server half of httptunnel\<close>

text \<open>
  A shallow embedding of \<^verbatim>\<open>src/hts.c\<close>: \<^verbatim>\<open>usage\<close>, \<^verbatim>\<open>parse_arguments\<close> and \<^verbatim>\<open>main\<close>.
  The program talks to its surroundings through the C library, the tunnel module
  (\<^verbatim>\<open>tunnel_*\<close>) and the helpers of \<^verbatim>\<open>common.h\<close>; none of these is part of the file.
  Every such call is modelled by the answer it gives back, which is an input of the model,
  and by an event in the trace the model returns. The two loops of \<^verbatim>\<open>main\<close> recurse over
  the list of answers: when the answers run out the process is still running, waiting in
  the call that would have consumed the next one.
\<close>

subsection \<open>Machine types\<close>

text \<open>
  \<^verbatim>\<open>int\<close> is 32 bits wide, \<^verbatim>\<open>short\<close> 16, \<^verbatim>\<open>size_t\<close> and \<^verbatim>\<open>time_t\<close> 64 (an LP64 platform).
  Signed values are read with \<open>sint\<close>; a conversion to a narrower type keeps the low bits.
\<close>

type_synonym c_int = "32 word"
type_synonym c_short = "16 word"
type_synonym size_t = "64 word"
type_synonym time_t = "64 word"

text \<open>A character constant such as \<^verbatim>\<open>'d'\<close> has type \<^verbatim>\<open>int\<close>.\<close>

abbreviation ch :: "char \<Rightarrow> c_int" where
  "ch x \<equiv> of_char x"

abbreviation apostrophe :: string where
  "apostrophe \<equiv> [CHR 0x27]"

text \<open>A \<^verbatim>\<open>char *\<close> that may be \<^verbatim>\<open>NULL\<close> is a \<open>string option\<close>; \<^verbatim>\<open>Tunnel *\<close> likewise.\<close>

type_synonym tunnel = nat

datatype FILE = STDOUT | STDERR | Named string

subsection \<open>The trace of calls\<close>

datatype level = Error | Notice | Debug | Verbose | Annoying

datatype handler = Handle_device_input | Handle_tunnel_input

datatype sighandler = Log_sigpipe | SIG_IGN

text \<open>
  One event per call that acts on the world outside the process. \<open>Log\<close> carries the format
  string of the \<^verbatim>\<open>log_*\<close> call as written in the source; \<open>Fprintf\<close> carries the formatted text.
  \<open>Open_device\<close> and \<open>Do_connect\<close> also record the descriptor that was returned.
\<close>

datatype event =
    Fprintf FILE string
  | Fclose FILE
  | Log level string
  | Daemon c_int c_int
  | Openlog
  | Tunnel_new_server c_int size_t
  | Tunnel_setopt tunnel string c_int
  | Signal_SIGPIPE sighandler
  | Open_device string c_int
  | Tunnel_accept tunnel
  | Set_address "string option" c_int
  | Do_connect c_int
  | Poll c_int c_int c_int
  | Tunnel_padding tunnel c_int
  | Handle_input string tunnel c_int c_short handler
  | Close c_int
  | Tunnel_close tunnel
  | Tunnel_destroy tunnel

text \<open>
  How a piece of code ends: \<^verbatim>\<open>exit (n)\<close> and \<^verbatim>\<open>log_exit (n)\<close> end the process with
  status \<open>n\<close>; \<open>Wait\<close> says that the process is blocked in a call whose answer the input
  does not hold; \<open>Go\<close> is control reaching the end of the piece, with the values it leaves.
\<close>

datatype 'a flow = Exit c_int | Wait | Go 'a

subsection \<open>What the build and the platform provide\<close>

text \<open>
  The macros of \<^verbatim>\<open>common.h\<close> and \<^verbatim>\<open>config.h\<close> that \<^verbatim>\<open>hts.c\<close> uses are not in the file;
  they are parameters, as is whether \<^verbatim>\<open>DEBUG_MODE\<close> is defined.
\<close>

record build =
  DEBUG_MODE :: bool
  DEFAULT_HOST_PORT :: c_int
  DEFAULT_CONTENT_LENGTH :: size_t
  DEFAULT_KEEP_ALIVE :: c_int
  DEFAULT_CONNECTION_MAX_TIME :: c_int
  DEFAULT_MAX_CONNECTION_AGE :: c_int
  PACKAGE :: string
  VERSION :: string
  BUG_REPORT_EMAIL :: string
  POLLIN :: c_short

text \<open>
  The functions called while the command line is read: \<^verbatim>\<open>atoi\<close>, \<^verbatim>\<open>atoi_with_postfix\<close>,
  \<^verbatim>\<open>name_and_port\<close> (which receives the current host and port through pointers and may
  overwrite them) and \<^verbatim>\<open>fopen\<close> (\<open>None\<close> is \<^verbatim>\<open>NULL\<close>).
\<close>

record platform =
  atoi :: "string option \<Rightarrow> c_int"
  atoi_with_postfix :: "string option \<Rightarrow> size_t"
  name_and_port :: "string option \<Rightarrow> string option \<times> c_int \<Rightarrow> string option \<times> c_int"
  fopen :: "string option \<Rightarrow> string \<Rightarrow> FILE option"

subsection \<open>printf conversions\<close>

function dec :: "nat \<Rightarrow> string" where
  "dec n = (if n < 10 then [''0123456789'' ! n]
            else dec (n div 10) @ [''0123456789'' ! (n mod 10)])"
  by pat_completeness auto
termination
  by (relation "measure id") auto

declare dec.simps [simp del]

function oct :: "nat \<Rightarrow> string" where
  "oct n = (if n < 8 then [''01234567'' ! n]
            else oct (n div 8) @ [''01234567'' ! (n mod 8)])"
  by pat_completeness auto
termination
  by (relation "measure id") auto

declare oct.simps [simp del]

text \<open>\<^verbatim>\<open>%d\<close> of an \<^verbatim>\<open>int\<close>, \<^verbatim>\<open>%o\<close> of an \<^verbatim>\<open>int\<close> (read as unsigned), \<^verbatim>\<open>%s\<close> of a pointer.\<close>

definition printf_d :: "c_int \<Rightarrow> string" where
  "printf_d n = (if sint n < 0 then ''-'' @ dec (nat (- sint n)) else dec (nat (sint n)))"

definition printf_o :: "c_int \<Rightarrow> string" where
  "printf_o n = oct (unat n)"

definition printf_s :: "string option \<Rightarrow> string" where
  "printf_s p = (case p of None \<Rightarrow> ''(null)'' | Some s \<Rightarrow> s)"

text \<open>The value of a string of decimal digits, to say what \<open>dec\<close> prints.\<close>

definition digit_val :: "char \<Rightarrow> nat" where
  "digit_val c = of_char c - 48"

definition dec_val :: "string \<Rightarrow> nat" where
  "dec_val s = foldl (\<lambda>a c. 10 * a + digit_val c) 0 s"

subsection \<open>Arguments and globals\<close>

record Arguments =
  me :: string
  device :: "string option"
  port :: c_int
  forward_host :: "string option"
  forward_port :: c_int
  content_length :: size_t
  pid_filename :: "string option"
  strict_content_length :: c_int
  keep_alive :: c_int
  max_connection_age :: c_int

record globals =
  debug_level :: c_int
  debug_file :: "FILE option"

abbreviation (input) FALSE :: c_int where "FALSE \<equiv> 0"
abbreviation (input) TRUE :: c_int where "TRUE \<equiv> 1"

subsection \<open>usage\<close>

definition usage :: "build \<Rightarrow> FILE \<Rightarrow> string \<Rightarrow> event list" where
  "usage b f me_name = [Fprintf f (
     ''Usage: '' @ me_name @ '' [OPTION]... [PORT]\<newline>'' @
     ''Listen for incoming httptunnel connections at PORT (default port is '' @
        printf_d (DEFAULT_HOST_PORT b) @ '').\<newline>'' @
     ''When a connection is made, I/O is redirected to the destination specified\<newline>'' @
     ''by the --device or --forward-port switch.\<newline>'' @
     ''\<newline>'' @
     ''  -c, --content-length BYTES     use HTTP PUT requests of BYTES size\<newline>'' @
     ''                                 (k, M, and G postfixes recognized)\<newline>'' @
     ''  -d, --device DEVICE            use DEVICE for input and output\<newline>'' @
     (if DEBUG_MODE b then
     ''  -D, --debug [LEVEL]            enable debug mode\<newline>'' else []) @
     ''  -F, --forward-port HOST:PORT   connect to PORT at HOST and use it for \<newline>'' @
     ''                                 input and output\<newline>'' @
     ''  -h, --help                     display this help and exit\<newline>'' @
     ''  -k, --keep-alive SECONDS       send keepalive bytes every SECONDS seconds\<newline>'' @
     ''                                 (default is '' @ printf_d (DEFAULT_KEEP_ALIVE b) @ '')\<newline>'' @
     (if DEBUG_MODE b then
     ''  -l, --logfile FILE             specify logfile for debug output\<newline>'' else []) @
     ''  -M, --max-connection-age SEC   maximum time a connection will stay\<newline>'' @
     ''                                 open is SEC seconds (default is '' @
        printf_d (DEFAULT_MAX_CONNECTION_AGE b) @ '')\<newline>'' @
     ''  -S, --strict-content-length    always write Content-Length bytes in requests\<newline>'' @
     ''  -V, --version                  output version information and exit\<newline>'' @
     ''  -p, --pid-file LOCATION        write a PID file to LOCATION\<newline>'' @
     ''\<newline>'' @
     ''Report bugs to '' @ BUG_REPORT_EMAIL b @ ''.\<newline>'')]"

subsection \<open>parse_arguments\<close>

text \<open>The names of the \<^verbatim>\<open>long_options\<close> table, in its order.\<close>

definition long_options :: "build \<Rightarrow> string list" where
  "long_options b =
     [''help'', ''strict'', ''version''] @
     (if DEBUG_MODE b then [''debug'', ''logfile''] else []) @
     [''device'', ''pid-file'', ''keep-alive'', ''forward-port'', ''content-length'',
      ''max-connection-age'']"

text \<open>
  One return of \<^verbatim>\<open>getopt_long\<close>: the value returned, \<^verbatim>\<open>optarg\<close> and \<^verbatim>\<open>option_index\<close>.
  \<^verbatim>\<open>option_index\<close> is only read when the value is 0, to print the option's name; an index
  past the table (which \<^verbatim>\<open>getopt_long\<close> never produces) prints as \<^verbatim>\<open>(null)\<close>, the
  table's terminating entry.
\<close>

type_synonym getopt_ret = "c_int \<times> string option \<times> nat"

definition long_option_name :: "build \<Rightarrow> nat \<Rightarrow> string" where
  "long_option_name b i =
     (if i < length (long_options b) then long_options b ! i else ''(null)'')"

text \<open>The body of the \<^verbatim>\<open>switch (c)\<close>, cases in the order of the source.\<close>

definition switch_c ::
  "build \<Rightarrow> platform \<Rightarrow> Arguments \<times> globals \<Rightarrow> getopt_ret \<Rightarrow>
   event list \<times> (Arguments \<times> globals) flow" where
  "switch_c b pl s r =
    (case s of (arg, g) \<Rightarrow> case r of (c, optarg, option_index) \<Rightarrow>
     if c = 0 then
       ([Fprintf STDOUT (''option '' @ long_option_name b option_index)] @
        (case optarg of Some a \<Rightarrow> [Fprintf STDOUT ('' with arg '' @ a)] | None \<Rightarrow> []) @
        [Fprintf STDOUT ''\<newline>''], Go (arg, g))
     else if c = ch CHR ''c'' then
       ([], Go (arg\<lparr>content_length := atoi_with_postfix pl optarg\<rparr>, g))
     else if c = ch CHR ''d'' then
       ([], Go (arg\<lparr>device := optarg\<rparr>, g))
     else if DEBUG_MODE b \<and> c = ch CHR ''D'' then
       ([], Go (arg, g\<lparr>debug_level := (if optarg \<noteq> None then atoi pl optarg else 1)\<rparr>))
     else if DEBUG_MODE b \<and> c = ch CHR ''l'' then
       (let g' = g\<lparr>debug_file := fopen pl optarg ''w''\<rparr> in
        if debug_file g' = None then
          ([Fprintf STDERR (me arg @ '': couldn't open file '' @ printf_s optarg @
                            '' for writing\<newline>'')], Exit 1)
        else ([], Go (arg, g')))
     else if c = ch CHR ''F'' then
       (case name_and_port pl optarg (forward_host arg, forward_port arg) of (h, p) \<Rightarrow>
        let arg' = arg\<lparr>forward_host := h, forward_port := p\<rparr> in
        if forward_port arg' = -1 then
          ([Fprintf STDERR (me arg' @ '': you must specify a port number.\<newline>'' @
                            me arg' @ '': try '' @ apostrophe @ me arg' @ '' --help' for help.\<newline>'')],
           Exit 1)
        else ([], Go (arg', g)))
     else if c = ch CHR ''h'' then
       (usage b STDOUT (me arg), Exit 0)
     else if c = ch CHR ''k'' then
       ([], Go (arg\<lparr>keep_alive := atoi pl optarg\<rparr>, g))
     else if c = ch CHR ''M'' then
       ([], Go (arg\<lparr>max_connection_age := atoi pl optarg\<rparr>, g))
     else if c = ch CHR ''S'' then
       ([], Go (arg\<lparr>strict_content_length := TRUE\<rparr>, g))
     else if c = ch CHR ''V'' then
       ([Fprintf STDOUT (''hts ('' @ PACKAGE b @ '') '' @ VERSION b @ ''\<newline>'')], Exit 0)
     else if c = ch CHR ''p'' then
       ([], Go (arg\<lparr>pid_filename := optarg\<rparr>, g))
     else if c = ch CHR ''?'' then
       ([], Go (arg, g))
     else
       ([Fprintf STDOUT (''?? getopt returned character code 0'' @ printf_o c @ '' ??\<newline>'')],
        Go (arg, g)))"

text \<open>
  The \<^verbatim>\<open>for (;;)\<close> around \<^verbatim>\<open>getopt_long\<close>. The list holds the successive returns;
  the loop ends at a return of -1, and the end of the list stands for that return too.
\<close>

fun scan_options ::
  "build \<Rightarrow> platform \<Rightarrow> Arguments \<times> globals \<Rightarrow> getopt_ret list \<Rightarrow>
   event list \<times> (Arguments \<times> globals) flow" where
  "scan_options b pl s [] = ([], Go s)"
| "scan_options b pl s (r # rs) =
     (if fst r = -1 then ([], Go s)
      else case switch_c b pl s r of
             (ev, Exit n) \<Rightarrow> (ev, Exit n)
           | (ev, Wait) \<Rightarrow> (ev, Wait)
           | (ev, Go s') \<Rightarrow>
               (case scan_options b pl s' rs of (ev', res) \<Rightarrow> (ev @ ev', res)))"

definition defaults :: "build \<Rightarrow> string \<Rightarrow> Arguments" where
  "defaults b argv0 =
     \<lparr>me = argv0, device = None, port = DEFAULT_HOST_PORT b, forward_host = None,
      forward_port = -1, content_length = DEFAULT_CONTENT_LENGTH b, pid_filename = None,
      strict_content_length = FALSE, keep_alive = DEFAULT_KEEP_ALIVE b,
      max_connection_age = DEFAULT_CONNECTION_MAX_TIME b\<rparr>"

text \<open>\<^verbatim>\<open>int debug_level = 0; FILE *debug_file = NULL;\<close>\<close>

definition globals0 :: globals where
  "globals0 = \<lparr>debug_level = 0, debug_file = None\<rparr>"

text \<open>
  \<open>operands\<close> are \<^verbatim>\<open>argv[optind]\<close> to \<^verbatim>\<open>argv[argc - 1]\<close>, the arguments left when
  \<^verbatim>\<open>getopt_long\<close> has returned -1: \<^verbatim>\<open>argc - 1 == optind\<close> says there is exactly one, which
  becomes the port, and \<^verbatim>\<open>argc - 1 > optind\<close> that there are more, which ends the process.
  The four checks that follow are in the order of the source.
\<close>

definition parse_arguments ::
  "build \<Rightarrow> platform \<Rightarrow> string \<Rightarrow> getopt_ret list \<Rightarrow> string list \<Rightarrow>
   event list \<times> (Arguments \<times> globals) flow" where
  "parse_arguments b pl argv0 opts operands =
    (case scan_options b pl (defaults b argv0, globals0) opts of
       (ev, Exit n) \<Rightarrow> (ev, Exit n)
     | (ev, Wait) \<Rightarrow> (ev, Wait)
     | (ev, Go (arg0, g)) \<Rightarrow>
        if 1 < length operands then (ev @ usage b STDERR (me arg0), Exit 1)
        else
          let arg = (if length operands = 1 then arg0\<lparr>port := atoi pl (Some (hd operands))\<rparr>
                     else arg0)
          in
          if device arg = None \<and> forward_port arg = -1 then
            (ev @ [Fprintf STDERR
                     (me arg @ '': one of --device or --forward-port must be used.\<newline>'' @
                      me arg @ '': try '' @ apostrophe @ me arg @ '' -help' for help.\<newline>'')], Exit 1)
          else if device arg \<noteq> None \<and> forward_port arg \<noteq> -1 then
            (ev @ [Fprintf STDERR
                     (me arg @ '': --device can't be used together with --forward-port.\<newline>'' @
                      me arg @ '': try '' @ apostrophe @ me arg @ '' --help' for help.\<newline>'')], Exit 1)
          else if debug_level g = 0 \<and> debug_file g \<noteq> None then
            (ev @ [Fprintf STDERR
                     (me arg @ '': --logfile can't be used without debugging\<newline>'')], Exit 1)
          else if ((device arg = None) = (forward_port arg = -1)) \<or> port arg = -1 \<or>
                  ((forward_host arg = None) \<noteq> (forward_port arg = -1)) then
            (ev @ usage b STDERR (me arg), Exit 1)
          else (ev, Go (arg, g)))"

subsection \<open>main: start-up\<close>

text \<open>
  The answers the surroundings give during start-up: the pointer returned by
  \<^verbatim>\<open>tunnel_new_server\<close> (\<open>None\<close> is \<^verbatim>\<open>NULL\<close>), the returns of the three \<^verbatim>\<open>tunnel_setopt\<close>
  calls, \<^verbatim>\<open>(int) getpid ()\<close>, the return of \<^verbatim>\<open>fclose\<close>, and \<^verbatim>\<open>strerror (errno)\<close> where
  it is printed.
\<close>

record startup_in =
  tunnel_new_server_r :: "tunnel option"
  setopt_strict_content_length_r :: c_int
  setopt_keep_alive_r :: c_int
  setopt_max_connection_age_r :: c_int
  getpid_r :: c_int
  fclose_r :: c_int
  strerror_r :: string

text \<open>The \<^verbatim>\<open>if (arg.pid_filename != NULL)\<close> block.\<close>

definition write_pid_file :: "platform \<Rightarrow> Arguments \<Rightarrow> startup_in \<Rightarrow> event list" where
  "write_pid_file pl arg su =
    (if pid_filename arg \<noteq> None then
       (case fopen pl (pid_filename arg) ''w+'' of
          None \<Rightarrow>
            [Fprintf STDERR (''Couldn't open pid file '' @ printf_s (pid_filename arg) @ '': '' @
                             strerror_r su @ ''\<newline>'')]
        | Some pid_file \<Rightarrow>
            [Fprintf pid_file (printf_d (getpid_r su) @ ''\<newline>''), Fclose pid_file] @
            (if fclose_r su \<noteq> 0 then
               [Fprintf STDERR (''Error closing pid file: '' @ strerror_r su @ ''\<newline>'')]
             else []))
     else [])"

text \<open>One \<^verbatim>\<open>tunnel_setopt\<close> call with its \<^verbatim>\<open>if (... == -1) log_debug (...)\<close>.\<close>

definition setopt_block :: "tunnel \<Rightarrow> string \<Rightarrow> c_int \<Rightarrow> c_int \<Rightarrow> event list" where
  "setopt_block tn name v r =
     Tunnel_setopt tn name v #
     (if r = -1 then [Log Debug (''tunnel_setopt '' @ name @ '' error: %s'')] else [])"

text \<open>From the return of \<^verbatim>\<open>parse_arguments\<close> to the \<^verbatim>\<open>for (;;)\<close>.\<close>

definition startup ::
  "build \<Rightarrow> platform \<Rightarrow> Arguments \<Rightarrow> globals \<Rightarrow> startup_in \<Rightarrow>
   event list \<times> (tunnel \<times> globals) flow" where
  "startup b pl arg g su =
    (let ev_daemon = (if debug_level g = 0 \<or> debug_file g \<noteq> None then [Daemon 0 1] else []);
         g' = (if DEBUG_MODE b \<and> debug_level g \<noteq> 0 \<and> debug_file g = None
               then g\<lparr>debug_file := Some STDOUT\<rparr> else g);
         ev_log = (if DEBUG_MODE b then [] else [Openlog]);
         ev_args =
           [Log Notice ''hts (%s) %s started with arguments:'',
            Log Notice ''  me = %s'',
            Log Notice ''  device = %s'',
            Log Notice ''  port = %d'',
            Log Notice ''  forward_port = %d'',
            Log Notice ''  forward_host = %s'',
            Log Notice ''  content_length = %d'',
            Log Notice ''  debug_level = %d'',
            Log Notice ''  pid_filename = %s'',
            Tunnel_new_server (port arg) (content_length arg)]
     in case tunnel_new_server_r su of
          None \<Rightarrow>
            (ev_daemon @ ev_log @ ev_args @ [Log Error ''couldn't create tunnel''], Exit 1)
        | Some tn \<Rightarrow>
            (ev_daemon @ ev_log @ ev_args @
             setopt_block tn ''strict_content_length'' (strict_content_length arg)
               (setopt_strict_content_length_r su) @
             setopt_block tn ''keep_alive'' (keep_alive arg) (setopt_keep_alive_r su) @
             setopt_block tn ''max_connection_age'' (max_connection_age arg)
               (setopt_max_connection_age_r su) @
             [Signal_SIGPIPE (if DEBUG_MODE b then Log_sigpipe else SIG_IGN)] @
             write_pid_file pl arg su,
             Go (tn, g')))"

subsection \<open>main: the bridge loop\<close>

text \<open>
  The answers during one pass of \<^verbatim>\<open>while (!closed)\<close>: the returns of \<^verbatim>\<open>tunnel_pollin_fd\<close>,
  of \<^verbatim>\<open>time (&t)\<close> and of \<^verbatim>\<open>poll\<close>, the two \<^verbatim>\<open>revents\<close> fields \<^verbatim>\<open>poll\<close> filled in, the value
  \<^verbatim>\<open>closed\<close> holds after the two \<^verbatim>\<open>handle_input\<close> calls (they receive \<^verbatim>\<open>&closed\<close>), and the
  clock at \<^verbatim>\<open>time (&last_tunnel_write)\<close>.
\<close>

record pass_in =
  tunnel_pollin_fd_r :: c_int
  time_r :: time_t
  poll_r :: c_int
  revents0 :: c_short
  revents1 :: c_short
  closed_r :: c_int
  time_after_r :: time_t

record bridge_state =
  closed :: c_int
  last_tunnel_write :: time_t

text \<open>
  \<^verbatim>\<open>timeout = 1000 * (arg.keep_alive - (t - last_tunnel_write)); if (timeout < 0) timeout = 0;\<close>
  The subtraction and the product are computed in \<^verbatim>\<open>time_t\<close> (the \<^verbatim>\<open>int\<close> operands are
  converted, keeping their sign); the assignment to \<^verbatim>\<open>int timeout\<close> keeps the low 32 bits.
\<close>

definition poll_timeout :: "c_int \<Rightarrow> time_t \<Rightarrow> time_t \<Rightarrow> c_int" where
  "poll_timeout ka t lw =
    (let timeout = (ucast (1000 * (scast ka - (t - lw)) :: time_t) :: c_int)
     in if sint timeout < 0 then 0 else timeout)"

definition bridge_pass ::
  "build \<Rightarrow> Arguments \<Rightarrow> tunnel \<Rightarrow> c_int \<Rightarrow> bridge_state \<Rightarrow> pass_in \<Rightarrow>
   event list \<times> bridge_state flow" where
  "bridge_pass b arg tn fd st p =
    (let timeout = poll_timeout (keep_alive arg) (time_r p) (last_tunnel_write st);
         n = poll_r p;
         ev = [Log Annoying ''poll () ...'',
               Poll fd (tunnel_pollin_fd_r p) timeout,
               Log Annoying ''... = %d'']
     in if n = -1 then
          (ev @ [Log Error ''poll error: %s\<newline>''], Exit 1)
        else if n = 0 then
          (ev @ [Log Verbose ''poll() timed out'', Tunnel_padding tn 1],
           Go (st\<lparr>last_tunnel_write := time_after_r p\<rparr>))
        else
          (ev @ [Log Annoying ''revents[0] = %x, revents[1] = %x, POLLIN = %x'',
                 Handle_input ''device or port'' tn fd (revents0 p) Handle_device_input,
                 Handle_input ''tunnel'' tn fd (revents1 p) Handle_tunnel_input],
           Go (st\<lparr>closed := closed_r p,
                  last_tunnel_write :=
                    (if revents0 p AND POLLIN b \<noteq> 0 then time_after_r p
                     else last_tunnel_write st)\<rparr>)))"

text \<open>\<^verbatim>\<open>while (!closed)\<close>, one element of the list per pass.\<close>

fun bridge ::
  "build \<Rightarrow> Arguments \<Rightarrow> tunnel \<Rightarrow> c_int \<Rightarrow> bridge_state \<Rightarrow> pass_in list \<Rightarrow>
   event list \<times> bridge_state flow" where
  "bridge b arg tn fd st [] = (if closed st \<noteq> 0 then ([], Go st) else ([], Wait))"
| "bridge b arg tn fd st (p # ps) =
     (if closed st \<noteq> 0 then ([], Go st)
      else case bridge_pass b arg tn fd st p of
             (ev, Exit n) \<Rightarrow> (ev, Exit n)
           | (ev, Wait) \<Rightarrow> (ev, Wait)
           | (ev, Go st') \<Rightarrow>
               (case bridge b arg tn fd st' ps of (ev', res) \<Rightarrow> (ev @ ev', res)))"

subsection \<open>main: the accept loop\<close>

text \<open>
  The answers during one pass of the outer \<^verbatim>\<open>for (;;)\<close>: the returns of \<^verbatim>\<open>open_device\<close>,
  \<^verbatim>\<open>tunnel_accept\<close>, \<^verbatim>\<open>set_address\<close>, \<^verbatim>\<open>do_connect\<close> and \<^verbatim>\<open>time (&last_tunnel_write)\<close>, and
  the answers for the passes of the bridge loop.
\<close>

record session_in =
  open_device_r :: c_int
  tunnel_accept_r :: c_int
  set_address_r :: c_int
  do_connect_r :: c_int
  time0_r :: time_t
  passes :: "pass_in list"

text \<open>The \<^verbatim>\<open>if (arg.device != NULL)\<close> block; it leaves the value of \<^verbatim>\<open>fd\<close>.\<close>

definition open_device_block :: "Arguments \<Rightarrow> c_int \<Rightarrow> session_in \<Rightarrow> event list \<times> c_int flow" where
  \<open>open_device_block arg fd s =
    (case device arg of
       None \<Rightarrow> ([], Go fd)
     | Some path \<Rightarrow>
         (let fd' = open_device_r s;
              ev = [Open_device path fd', Log Debug ''open_device ("%s") = %d'']
          in if fd' = -1 then (ev @ [Log Error ''couldn't open %s: %s''], Exit 1)
             else (ev, Go fd')))\<close>

text \<open>The \<^verbatim>\<open>if (arg.forward_port != -1)\<close> block; it leaves the value of \<^verbatim>\<open>fd\<close>.\<close>

definition forward_block :: "Arguments \<Rightarrow> c_int \<Rightarrow> session_in \<Rightarrow> event list \<times> c_int flow" where
  \<open>forward_block arg fd s =
    (if forward_port arg \<noteq> -1 then
       if set_address_r s = -1 then
         ([Set_address (forward_host arg) (forward_port arg),
           Log Error ''couldn't forward port to %s:%d: %s\<newline>''], Exit 1)
       else
         (let fd' = do_connect_r s;
              ev = [Set_address (forward_host arg) (forward_port arg),
                    Do_connect fd', Log Debug ''do_connect ("%s:%d") = %d'']
          in if fd' = -1 then (ev @ [Log Error ''couldn't connect to %s:%d: %s\<newline>''], Exit 1)
             else (ev, Go fd'))
     else ([], Go fd))\<close>

text \<open>
  One pass of the outer \<^verbatim>\<open>for (;;)\<close>. \<open>Go fd\<close> is control going back to the top of the loop,
  by \<^verbatim>\<open>continue\<close> or from the end of the body, with \<open>fd\<close> the value the variable then has.
\<close>

definition session ::
  "build \<Rightarrow> Arguments \<Rightarrow> tunnel \<Rightarrow> c_int \<Rightarrow> session_in \<Rightarrow> event list \<times> c_int flow" where
  "session b arg tn fd s =
    (let ev0 = [Log Debug ''waiting for tunnel connection''] in
     case open_device_block arg fd s of
       (ev1, Exit n) \<Rightarrow> (ev0 @ ev1, Exit n)
     | (ev1, Wait) \<Rightarrow> (ev0 @ ev1, Wait)
     | (ev1, Go fd1) \<Rightarrow>
         if tunnel_accept_r s = -1 then
           (ev0 @ ev1 @ [Tunnel_accept tn, Log Notice ''couldn't accept connection: %s''], Go fd1)
         else
           (let ev2 = [Tunnel_accept tn, Log Notice ''connected to FIXME:hostname:port''] in
            case forward_block arg fd1 s of
              (ev3, Exit n) \<Rightarrow> (ev0 @ ev1 @ ev2 @ ev3, Exit n)
            | (ev3, Wait) \<Rightarrow> (ev0 @ ev1 @ ev2 @ ev3, Wait)
            | (ev3, Go fd2) \<Rightarrow>
                (case bridge b arg tn fd2
                        \<lparr>closed = FALSE, last_tunnel_write = time0_r s\<rparr> (passes s) of
                   (ev4, Exit n) \<Rightarrow> (ev0 @ ev1 @ ev2 @ ev3 @ ev4, Exit n)
                 | (ev4, Wait) \<Rightarrow> (ev0 @ ev1 @ ev2 @ ev3 @ ev4, Wait)
                 | (ev4, Go st) \<Rightarrow>
                     (ev0 @ ev1 @ ev2 @ ev3 @ ev4 @
                      [Log Debug ''closing tunnel'', Close fd2, Tunnel_close tn,
                       Log Notice ''disconnected from FIXME:hostname:port''], Go fd2))))"

text \<open>How far the process has come when the answers are used up.\<close>

datatype status = Exited c_int | Running

text \<open>
  The outer \<^verbatim>\<open>for (;;)\<close>. It has no \<^verbatim>\<open>break\<close>: the \<^verbatim>\<open>tunnel_destroy\<close> and \<^verbatim>\<open>log_exit (0)\<close>
  that follow it in the source are never reached, and have no counterpart here.
\<close>

fun main_loop ::
  "build \<Rightarrow> Arguments \<Rightarrow> tunnel \<Rightarrow> c_int \<Rightarrow> session_in list \<Rightarrow> event list \<times> status" where
  "main_loop b arg tn fd [] = ([], Running)"
| "main_loop b arg tn fd (s # ss) =
     (case session b arg tn fd s of
        (ev, Exit n) \<Rightarrow> (ev, Exited n)
      | (ev, Wait) \<Rightarrow> (ev, Running)
      | (ev, Go fd') \<Rightarrow>
          (case main_loop b arg tn fd' ss of (ev', res) \<Rightarrow> (ev @ ev', res)))"

subsection \<open>main\<close>

text \<open>
  \<open>argv0\<close> is \<^verbatim>\<open>argv[0]\<close>; \<open>opts\<close> and \<open>operands\<close> are what \<^verbatim>\<open>getopt_long\<close> makes of the
  rest of \<^verbatim>\<open>argv\<close>. \<^verbatim>\<open>int fd = -1\<close> is the value \<open>fd\<close> has when the loop is entered.
\<close>

definition main ::
  "build \<Rightarrow> platform \<Rightarrow> string \<Rightarrow> getopt_ret list \<Rightarrow> string list \<Rightarrow> startup_in \<Rightarrow>
   session_in list \<Rightarrow> event list \<times> status" where
  "main b pl argv0 opts operands su ss =
    (case parse_arguments b pl argv0 opts operands of
       (ev, Exit n) \<Rightarrow> (ev, Exited n)
     | (ev, Wait) \<Rightarrow> (ev, Running)
     | (ev, Go (arg, g)) \<Rightarrow>
         (case startup b pl arg g su of
            (ev', Exit n) \<Rightarrow> (ev @ ev', Exited n)
          | (ev', Wait) \<Rightarrow> (ev @ ev', Running)
          | (ev', Go (tn, g')) \<Rightarrow>
              (case main_loop b arg tn (-1) ss of (ev'', res) \<Rightarrow> (ev @ ev' @ ev'', res))))"

section \<open>Reading command lines and traces\<close>

text \<open>
  The returns of \<^verbatim>\<open>getopt_long\<close> that the scan looks at are those before the first -1.
  Option \<open>x\<close> is given when one of them is \<open>x\<close>. \<^verbatim>\<open>"d:"\<close> in \<^verbatim>\<open>short_options\<close> and
  \<^verbatim>\<open>required_argument\<close> in \<^verbatim>\<open>long_options\<close> make \<^verbatim>\<open>getopt_long\<close> return \<^verbatim>\<open>'d'\<close> only together
  with an argument; \<open>device_args_present\<close> says that the list respects this.
\<close>

definition scanned :: "getopt_ret list \<Rightarrow> getopt_ret list" where
  "scanned opts = takeWhile (\<lambda>r. fst r \<noteq> -1) opts"

definition given :: "char \<Rightarrow> getopt_ret list \<Rightarrow> bool" where
  "given x opts = list_ex (\<lambda>r. fst r = ch x) (scanned opts)"

definition device_args_present :: "getopt_ret list \<Rightarrow> bool" where
  "device_args_present opts =
     list_all (\<lambda>r. fst r = ch CHR ''d'' \<longrightarrow> fst (snd r) \<noteq> None) (scanned opts)"

fun is_fprintf :: "event \<Rightarrow> bool" where
  "is_fprintf (Fprintf f t) = True"
| "is_fprintf e = False"

fun to_stderr :: "event \<Rightarrow> bool" where
  "to_stderr (Fprintf f t) = (f = STDERR)"
| "to_stderr e = False"

fun writes_to :: "FILE \<Rightarrow> event \<Rightarrow> bool" where
  "writes_to f (Fprintf f' t) = (f' = f)"
| "writes_to f e = False"


text \<open>The calls that create a listener or give it up.\<close>

fun is_tunnel_new_server :: "event \<Rightarrow> bool" where
  "is_tunnel_new_server (Tunnel_new_server p c) = True"
| "is_tunnel_new_server e = False"

fun makes_or_destroys_tunnel :: "event \<Rightarrow> bool" where
  "makes_or_destroys_tunnel (Tunnel_new_server p c) = True"
| "makes_or_destroys_tunnel (Tunnel_destroy tn) = True"
| "makes_or_destroys_tunnel e = False"

text \<open>Everything a trace writes to one stream, in order.\<close>

fun written_to :: "FILE \<Rightarrow> event list \<Rightarrow> string" where
  "written_to f [] = []"
| "written_to f (Fprintf f' t # es) = (if f' = f then t @ written_to f es else written_to f es)"
| "written_to f (e # es) = written_to f es"

text \<open>
  The descriptors a trace leaves open, given those open before it: \<^verbatim>\<open>open_device\<close> and
  \<^verbatim>\<open>do_connect\<close> add the descriptor they return unless it is -1, \<^verbatim>\<open>close\<close> removes its argument.
\<close>

fun descriptors :: "event list \<Rightarrow> c_int list \<Rightarrow> c_int list" where
  "descriptors [] tbl = tbl"
| "descriptors (Open_device p d # es) tbl = descriptors es (if d = -1 then tbl else d # tbl)"
| "descriptors (Do_connect d # es) tbl = descriptors es (if d = -1 then tbl else d # tbl)"
| "descriptors (Close d # es) tbl = descriptors es (remove1 d tbl)"
| "descriptors (e # es) tbl = descriptors es tbl"




section \<open>The tunnel endpoint, from the specification\<close>

text \<open>
  Modelled from the spec: the phases of the tunnel endpoint (sections 3 and 4.3). The
  tunnel module behind \<^verbatim>\<open>tunnel_accept\<close> and \<^verbatim>\<open>tunnel_close\<close> is not among the sources, so
  what these two calls do to the endpoint is taken from the specification's state machine.
\<close>

datatype phase = LISTENING | HANDSHAKING | OPEN | HALF_CLOSED | CLOSED




section \<open>A sample build and platform\<close>

text \<open>
  Concrete values for the parameters, to run the model on concrete command lines:
  the defaults the documentation names, a decimal \<^verbatim>\<open>atoi\<close>, a \<^verbatim>\<open>name_and_port\<close> that splits
  at the colon and leaves the port alone when there is none, and an \<^verbatim>\<open>fopen\<close> that succeeds.
\<close>

definition is_digit :: "char \<Rightarrow> bool" where
  "is_digit c = (48 \<le> (of_char c :: nat) \<and> (of_char c :: nat) \<le> 57)"

definition sample_atoi :: "string option \<Rightarrow> c_int" where
  "sample_atoi p =
     (case p of
        None \<Rightarrow> 0
      | Some s \<Rightarrow>
          if s \<noteq> [] \<and> hd s = CHR ''-'' then - of_nat (dec_val (takeWhile is_digit (tl s)))
          else of_nat (dec_val (takeWhile is_digit s)))"

definition sample_name_and_port ::
  "string option \<Rightarrow> string option \<times> c_int \<Rightarrow> string option \<times> c_int" where
  "sample_name_and_port p hp =
     (case p of
        None \<Rightarrow> hp
      | Some s \<Rightarrow>
          (let r = dropWhile (\<lambda>c. c \<noteq> CHR '':'') s
           in (Some (takeWhile (\<lambda>c. c \<noteq> CHR '':'') s),
               if r = [] then snd hp else sample_atoi (Some (tl r)))))"

definition sample_platform :: platform where
  "sample_platform =
     \<lparr>atoi = sample_atoi, atoi_with_postfix = (\<lambda>p. scast (sample_atoi p)),
      name_and_port = sample_name_and_port, fopen = (\<lambda>p m. map_option Named p)\<rparr>"

definition sample_build :: build where
  "sample_build =
     \<lparr>DEBUG_MODE = False, DEFAULT_HOST_PORT = 8888, DEFAULT_CONTENT_LENGTH = 65536,
      DEFAULT_KEEP_ALIVE = 5, DEFAULT_CONNECTION_MAX_TIME = 300,
      DEFAULT_MAX_CONNECTION_AGE = 300, PACKAGE = ''httptunnel'', VERSION = ''3.3'',
      BUG_REPORT_EMAIL = ''bug-httptunnel@gnu.org'', POLLIN = 1\<rparr>"

definition sample_startup :: startup_in where
  "sample_startup =
     \<lparr>tunnel_new_server_r = Some 1, setopt_strict_content_length_r = 0,
      setopt_keep_alive_r = 0, setopt_max_connection_age_r = 0, getpid_r = 4242,
      fclose_r = 0, strerror_r = ''No such file or directory''\<rparr>"

text \<open>A pass of the bridge loop in which \<^verbatim>\<open>poll\<close> times out at clock 102.\<close>

definition pass_timeout :: pass_in where
  "pass_timeout =
     \<lparr>tunnel_pollin_fd_r = 6, time_r = 100, poll_r = 0, revents0 = 0, revents1 = 0,
      closed_r = 0, time_after_r = 102\<rparr>"

text \<open>A pass in which the device is readable and \<^verbatim>\<open>handle_input\<close> finds it closed.\<close>

definition pass_eof :: pass_in where
  "pass_eof =
     \<lparr>tunnel_pollin_fd_r = 6, time_r = 103, poll_r = 1, revents0 = 1, revents1 = 0,
      closed_r = 1, time_after_r = 103\<rparr>"

text \<open>A pass in which \<^verbatim>\<open>poll\<close> fails.\<close>

definition pass_poll_error :: pass_in where
  "pass_poll_error =
     \<lparr>tunnel_pollin_fd_r = 6, time_r = 100, poll_r = -1, revents0 = 0, revents1 = 0,
      closed_r = 0, time_after_r = 100\<rparr>"

text \<open>
  Passes of the outer loop: one whose \<^verbatim>\<open>tunnel_accept\<close> fails, one that is accepted, sees a
  timeout and then the end of the device, and one that is accepted and whose \<^verbatim>\<open>poll\<close> fails.
\<close>

definition session_accept_fails :: session_in where
  "session_accept_fails =
     \<lparr>open_device_r = 3, tunnel_accept_r = -1, set_address_r = 0, do_connect_r = 5,
      time0_r = 100, passes = []\<rparr>"

definition session_accept_fails_again :: session_in where
  "session_accept_fails_again =
     \<lparr>open_device_r = 4, tunnel_accept_r = -1, set_address_r = 0, do_connect_r = 5,
      time0_r = 101, passes = []\<rparr>"

definition session_closes :: session_in where
  "session_closes =
     \<lparr>open_device_r = 4, tunnel_accept_r = 0, set_address_r = 0, do_connect_r = 5,
      time0_r = 100, passes = [pass_timeout, pass_eof]\<rparr>"

definition session_poll_error :: session_in where
  "session_poll_error =
     \<lparr>open_device_r = 4, tunnel_accept_r = 0, set_address_r = 0, do_connect_r = 5,
      time0_r = 100, passes = [pass_poll_error]\<rparr>"

text \<open>The command lines \<^verbatim>\<open>hts -d /dev/ttyS0\<close> and \<^verbatim>\<open>hts -F localhost:22\<close>, as \<^verbatim>\<open>getopt_long\<close> reads them.\<close>

definition opts_device :: "getopt_ret list" where
  "opts_device = [(ch CHR ''d'', Some ''/dev/ttyS0'', 0)]"

definition opts_forward :: "getopt_ret list" where
  "opts_forward = [(ch CHR ''F'', Some ''localhost:22'', 0)]"

text \<open>The \<^verbatim>\<open>Arguments\<close> these two command lines leave.\<close>

definition args_device :: Arguments where
  "args_device = (defaults sample_build ''hts'')\<lparr>device := Some ''/dev/ttyS0''\<rparr>"

definition args_forward :: Arguments where
  "args_forward =
     (defaults sample_build ''hts'')\<lparr>forward_host := Some ''localhost'', forward_port := 22\<rparr>"

text \<open>A pass whose \<^verbatim>\<open>poll\<close> times out at once, the clock still at 100.\<close>

definition pass_timeout_at_once :: pass_in where
  "pass_timeout_at_once =
     \<lparr>tunnel_pollin_fd_r = 6, time_r = 100, poll_r = 0, revents0 = 0, revents1 = 0,
      closed_r = 0, time_after_r = 100\<rparr>"

text \<open>A pass entered when the clock has moved 2147489 seconds since the last tunnel write.\<close>

definition pass_after_clock_jump :: pass_in where
  "pass_after_clock_jump =
     \<lparr>tunnel_pollin_fd_r = 6, time_r = 2147589, poll_r = 0, revents0 = 0, revents1 = 0,
      closed_r = 0, time_after_r = 2147589\<rparr>"

text \<open>Sessions for forward mode: one whose connect fails, one whose \<^verbatim>\<open>set_address\<close> fails.\<close>

definition session_connect_fails :: session_in where
  "session_connect_fails =
     \<lparr>open_device_r = -1, tunnel_accept_r = 0, set_address_r = 0, do_connect_r = -1,
      time0_r = 100, passes = []\<rparr>"

definition session_set_address_fails :: session_in where
  "session_set_address_fails =
     \<lparr>open_device_r = -1, tunnel_accept_r = 0, set_address_r = -1, do_connect_r = 5,
      time0_r = 100, passes = []\<rparr>"

text \<open>A session in which \<^verbatim>\<open>poll\<close> times out once and fails the second time.\<close>

definition session_poll_error_later :: session_in where
  "session_poll_error_later =
     \<lparr>open_device_r = 5, tunnel_accept_r = 0, set_address_r = 0, do_connect_r = 5,
      time0_r = 100, passes = [pass_timeout, pass_poll_error]\<rparr>"

text \<open>A pass of the accept loop in which the device cannot be opened.\<close>

definition session_open_fails :: session_in where
  "session_open_fails =
     \<lparr>open_device_r = -1, tunnel_accept_r = 0, set_address_r = 0, do_connect_r = 5,
      time0_r = 100, passes = []\<rparr>"

lemmas sample_defs =
  sample_platform_def sample_build_def sample_startup_def sample_atoi_def
  sample_name_and_port_def is_digit_def dec_val_def digit_val_def
  pass_timeout_def pass_eof_def pass_poll_error_def
  session_accept_fails_def session_accept_fails_again_def session_closes_def
  session_poll_error_def
  opts_device_def opts_forward_def args_device_def args_forward_def
  pass_timeout_at_once_def pass_after_clock_jump_def session_connect_fails_def
  session_set_address_fails_def session_poll_error_later_def session_open_fails_def

lemmas model_defs =
  main_def parse_arguments_def switch_c_def defaults_def globals0_def startup_def
  write_pid_file_def setopt_block_def session_def open_device_block_def forward_block_def
  bridge_pass_def poll_timeout_def usage_def printf_d_def printf_s_def printf_o_def
  long_option_name_def long_options_def

section \<open>The command line\<close>

lemma given_Nil [simp]: "given x [] = False"
  by (simp add: given_def scanned_def)

lemma given_Cons:
  "given x (r # rs) = (fst r \<noteq> -1 \<and> (fst r = ch x \<or> given x rs))"
  by (simp add: given_def scanned_def)

lemma device_args_present_Cons:
  "device_args_present (r # rs) =
     (fst r \<noteq> -1 \<longrightarrow>
        (fst r = ch CHR ''d'' \<longrightarrow> fst (snd r) \<noteq> None) \<and> device_args_present rs)"
  by (simp add: device_args_present_def scanned_def)

lemma usage_single: "\<exists>t. usage b f m = [Fprintf f t]"
  by (simp add: usage_def)

text \<open>Reading the command line only prints.\<close>

lemma switch_c_events: "list_all is_fprintf (fst (switch_c b pl s r))"
  by (cases s; cases r)
     (auto simp: switch_c_def usage_def Let_def split: option.splits prod.splits)

lemma scan_options_events: "list_all is_fprintf (fst (scan_options b pl s opts))"
proof (induction opts arbitrary: s)
  case Nil
  show ?case by simp
next
  case (Cons r rs)
  have sw: "list_all is_fprintf (fst (switch_c b pl s r))"
    by (rule switch_c_events)
  show ?case
  proof (cases "switch_c b pl s r")
    case (Pair ev res)
    with sw have ev: "list_all is_fprintf ev" by simp
    show ?thesis
    proof (cases res)
      case (Go s')
      from Cons.IH [of s'] have "list_all is_fprintf (fst (scan_options b pl s' rs))" .
      with Pair Go ev show ?thesis by (auto split: prod.splits)
    qed (use Pair ev in simp_all)
  qed
qed

lemma parse_arguments_events:
  "list_all is_fprintf (fst (parse_arguments b pl argv0 opts operands))"
proof -
  have sc: "list_all is_fprintf (fst (scan_options b pl (defaults b argv0, globals0) opts))"
    by (rule scan_options_events)
  obtain t where u: "\<And>m. usage b STDERR m = [Fprintf STDERR (t m)]"
    using usage_single by metis
  show ?thesis
    using sc unfolding parse_arguments_def
    by (auto simp: u Let_def split: prod.splits flow.splits)
qed

text \<open>
  One option that is neither \<^verbatim>\<open>-h\<close> nor \<^verbatim>\<open>-V\<close>: the scan either stops with status 1 after
  a message on stderr, or goes on, and then \<^verbatim>\<open>device\<close> is set exactly if it was set or the
  option is \<^verbatim>\<open>-d\<close>, and \<^verbatim>\<open>forward_port\<close> likewise with \<^verbatim>\<open>-F\<close>.
\<close>

lemma switch_c_step:
  assumes "switch_c b pl (arg, g) (c, oa, oi) = (ev, res)"
      and "c \<noteq> ch CHR ''h''" and "c \<noteq> ch CHR ''V''"
      and "c = ch CHR ''d'' \<longrightarrow> oa \<noteq> None"
  shows "case res of
           Exit n \<Rightarrow> n = 1 \<and> ev \<noteq> [] \<and> to_stderr (last ev)
         | Wait \<Rightarrow> False
         | Go (arg', g') \<Rightarrow>
             me arg' = me arg \<and>
             (device arg' \<noteq> None) = (device arg \<noteq> None \<or> c = ch CHR ''d'') \<and>
             (forward_port arg' \<noteq> -1) = (forward_port arg \<noteq> -1 \<or> c = ch CHR ''F'')"
  using assms
  by (auto simp: switch_c_def Let_def split: if_splits option.splits prod.splits)

lemma scan_options_inv:
  assumes "scan_options b pl (arg, g) opts = (ev, res)"
      and "\<not> given CHR ''h'' opts" and "\<not> given CHR ''V'' opts"
      and "device_args_present opts"
  shows "case res of
           Exit n \<Rightarrow> n = 1 \<and> ev \<noteq> [] \<and> to_stderr (last ev)
         | Wait \<Rightarrow> False
         | Go (arg', g') \<Rightarrow>
             me arg' = me arg \<and>
             (device arg' \<noteq> None) = (device arg \<noteq> None \<or> given CHR ''d'' opts) \<and>
             (forward_port arg' \<noteq> -1) = (forward_port arg \<noteq> -1 \<or> given CHR ''F'' opts)"
  using assms
proof (induction opts arbitrary: arg g ev res)
  case Nil
  then show ?case by auto
next
  case (Cons r rs)
  obtain c oa oi where r: "r = (c, oa, oi)" by (cases r)
  show ?case
  proof (cases "c = -1")
    case True
    with Cons.prems r show ?thesis by (auto simp: given_Cons)
  next
    case False
    obtain ev1 res1 where sw: "switch_c b pl (arg, g) (c, oa, oi) = (ev1, res1)"
      by (cases "switch_c b pl (arg, g) (c, oa, oi)")
    from Cons.prems r False have nh: "c \<noteq> ch CHR ''h''" and nv: "c \<noteq> ch CHR ''V''"
      and da: "c = ch CHR ''d'' \<longrightarrow> oa \<noteq> None"
      and rest: "\<not> given CHR ''h'' rs" "\<not> given CHR ''V'' rs" "device_args_present rs"
      by (auto simp: given_Cons device_args_present_Cons)
    note step = switch_c_step [OF sw nh nv da]
    show ?thesis
    proof (cases res1)
      case (Exit n)
      with Cons.prems(1) r False sw step show ?thesis by auto
    next
      case Wait
      with step show ?thesis by simp
    next
      case (Go s')
      obtain arg' g' where s': "s' = (arg', g')" by (cases s')
      obtain ev2 res2 where sc: "scan_options b pl (arg', g') rs = (ev2, res2)"
        by (cases "scan_options b pl (arg', g') rs")
      from Cons.prems(1) r False sw Go s' sc have ev: "ev = ev1 @ ev2" and res: "res = res2"
        by auto
      note ih = Cons.IH [OF sc rest]
      from step Go s' have st: "me arg' = me arg"
        "(device arg' \<noteq> None) = (device arg \<noteq> None \<or> c = ch CHR ''d'')"
        "(forward_port arg' \<noteq> -1) = (forward_port arg \<noteq> -1 \<or> c = ch CHR ''F'')"
        by auto
      show ?thesis
      proof (cases res2)
        case (Exit n)
        with ih ev res show ?thesis by auto
      next
        case Wait
        with ih show ?thesis by simp
      next
        case (Go s2)
        with ih ev res st r False show ?thesis
          by (cases s2) (auto simp: given_Cons)
      qed
    qed
  qed
qed

text \<open>
  A command line without \<^verbatim>\<open>-h\<close> and \<^verbatim>\<open>-V\<close> that gives neither or both of \<^verbatim>\<open>-d\<close> and \<^verbatim>\<open>-F\<close>
  does not get through \<^verbatim>\<open>parse_arguments\<close>.
\<close>

lemma parse_arguments_bad_combination:
  assumes "\<not> given CHR ''h'' opts" and "\<not> given CHR ''V'' opts"
      and "device_args_present opts"
      and "given CHR ''d'' opts = given CHR ''F'' opts"
  shows "\<exists>ev. parse_arguments b pl argv0 opts operands = (ev, Exit 1) \<and>
              ev \<noteq> [] \<and> to_stderr (last ev)"
proof -
  obtain ev res where sc: "scan_options b pl (defaults b argv0, globals0) opts = (ev, res)"
    by (cases "scan_options b pl (defaults b argv0, globals0) opts")
  note inv = scan_options_inv [OF sc assms(1-3)]
  obtain t where u: "\<And>m. usage b STDERR m = [Fprintf STDERR (t m)]"
    using usage_single by metis
  show ?thesis
  proof (cases res)
    case (Exit n)
    with inv sc show ?thesis by (simp add: parse_arguments_def)
  next
    case Wait
    with inv show ?thesis by simp
  next
    case (Go s)
    obtain arg g where s: "s = (arg, g)" by (cases s)
    from inv Go s assms(4) have
      "(device arg \<noteq> None) = (forward_port arg \<noteq> -1)"
      by (auto simp: defaults_def)
    with sc Go s show ?thesis
      by (auto simp: parse_arguments_def u Let_def)
  qed
qed

lemma fprintf_is_no_new_server:
  "list_all is_fprintf ev \<Longrightarrow> \<not> list_ex is_tunnel_new_server ev"
proof (induction ev)
  case Nil
  show ?case by simp
next
  case (Cons e es)
  then show ?case by (cases e) simp_all
qed

text \<open>
  C1, as amended. On every command line on which the option scan meets neither \<^verbatim>\<open>--help\<close>
  nor \<^verbatim>\<open>--version\<close>: if neither or both of \<^verbatim>\<open>--device\<close> and \<^verbatim>\<open>--forward-port\<close> are given,
  the process exits with code 1, the last thing it does is print to stderr, and
  \<^verbatim>\<open>tunnel_new_server\<close> is never called, so no listener is bound.
\<close>

theorem device_xor_forward_port_required:
  assumes "\<not> given CHR ''h'' opts" and "\<not> given CHR ''V'' opts"
      and "device_args_present opts"
      and "given CHR ''d'' opts = given CHR ''F'' opts"
  shows "\<exists>ev. main b pl argv0 opts operands su ss = (ev, Exited 1) \<and>
              ev \<noteq> [] \<and> to_stderr (last ev) \<and> \<not> list_ex is_tunnel_new_server ev"
proof -
  from parse_arguments_bad_combination [OF assms]
  obtain ev where p: "parse_arguments b pl argv0 opts operands = (ev, Exit 1)"
    and ev: "ev \<noteq> []" "to_stderr (last ev)"
    by blast
  have "list_all is_fprintf (fst (parse_arguments b pl argv0 opts operands))"
    by (rule parse_arguments_events)
  with p have "\<not> list_ex is_tunnel_new_server ev"
    by (simp add: fprintf_is_no_new_server)
  with p ev show ?thesis
    by (simp add: main_def)
qed

theorem device_xor_forward_port_required_witness:
  "\<not> given CHR ''h'' [(ch CHR ''k'', Some ''2'', 0)] \<and>
   \<not> given CHR ''V'' [(ch CHR ''k'', Some ''2'', 0)] \<and>
   device_args_present [(ch CHR ''k'', Some ''2'', 0)] \<and>
   given CHR ''d'' [(ch CHR ''k'', Some ''2'', 0)] = given CHR ''F'' [(ch CHR ''k'', Some ''2'', 0)] \<and>
   (\<exists>ev. main sample_build sample_platform ''hts'' [(ch CHR ''k'', Some ''2'', 0)] []
           sample_startup [session_closes] = (ev, Exited 1) \<and>
         ev \<noteq> [] \<and> to_stderr (last ev) \<and> \<not> list_ex is_tunnel_new_server ev)"
proof -
  have h: "\<not> given CHR ''h'' [(ch CHR ''k'', Some ''2'', 0)]"
    and v: "\<not> given CHR ''V'' [(ch CHR ''k'', Some ''2'', 0)]"
    and d: "device_args_present [(ch CHR ''k'', Some ''2'', 0)]"
    and x: "given CHR ''d'' [(ch CHR ''k'', Some ''2'', 0)] =
            given CHR ''F'' [(ch CHR ''k'', Some ''2'', 0)]"
    by (simp_all add: given_def scanned_def device_args_present_def)
  from device_xor_forward_port_required [OF h v d x] h v d x show ?thesis
    by blast
qed

text \<open>
  C1 as stated fails: on \<^verbatim>\<open>hts --help\<close> neither option is given, and the process prints the
  usage text to stdout, prints nothing to stderr and exits with code 0.
\<close>

theorem help_without_device_counterexample:
  "\<not> given CHR ''d'' [(ch CHR ''h'', None, 0)] \<and>
   \<not> given CHR ''F'' [(ch CHR ''h'', None, 0)] \<and>
   snd (main sample_build sample_platform ''hts'' [(ch CHR ''h'', None, 0)] []
          sample_startup []) = Exited 0 \<and>
   \<not> list_ex to_stderr
        (fst (main sample_build sample_platform ''hts'' [(ch CHR ''h'', None, 0)] []
                sample_startup []))"
  by (simp add: given_def scanned_def main_def parse_arguments_def switch_c_def usage_def)

section \<open>Help and version\<close>

lemma switch_c_me:
  "switch_c b pl (arg, g) r = (ev, Go (arg', g')) \<Longrightarrow> me arg' = me arg"
  by (cases r) (auto simp: switch_c_def Let_def split: if_splits option.splits prod.splits)

lemma scan_options_me:
  "scan_options b pl (arg, g) opts = (ev, Go (arg', g')) \<Longrightarrow> me arg' = me arg"
proof (induction opts arbitrary: arg g ev)
  case Nil
  then show ?case by simp
next
  case (Cons r rs)
  show ?case
  proof (cases "fst r = -1")
    case True
    with Cons.prems show ?thesis by simp
  next
    case False
    obtain ev1 res1 where sw: "switch_c b pl (arg, g) r = (ev1, res1)"
      by (cases "switch_c b pl (arg, g) r")
    show ?thesis
    proof (cases res1)
      case (Go s1)
      obtain a1 g1 where s1: "s1 = (a1, g1)" by (cases s1)
      obtain ev2 res2 where sc: "scan_options b pl (a1, g1) rs = (ev2, res2)"
        by (cases "scan_options b pl (a1, g1) rs")
      from Cons.prems False sw Go s1 sc have "res2 = Go (arg', g')" by simp
      with sc Cons.IH have "me arg' = me a1" by blast
      moreover from sw Go s1 have "me a1 = me arg" by (simp add: switch_c_me)
      ultimately show ?thesis by simp
    qed (use Cons.prems False sw in simp_all)
  qed
qed

lemma scan_options_append:
  assumes "list_all (\<lambda>r. fst r \<noteq> -1) pre"
      and "scan_options b pl s pre = (ev, Go s')"
  shows "scan_options b pl s (pre @ rest) =
           (ev @ fst (scan_options b pl s' rest), snd (scan_options b pl s' rest))"
  using assms
proof (induction pre arbitrary: s ev)
  case Nil
  then show ?case by simp
next
  case (Cons r rs)
  from Cons.prems(1) have r: "fst r \<noteq> -1" and rs: "list_all (\<lambda>r. fst r \<noteq> -1) rs"
    by simp_all
  obtain ev1 res1 where sw: "switch_c b pl s r = (ev1, res1)"
    by (cases "switch_c b pl s r")
  show ?case
  proof (cases res1)
    case (Go s1)
    obtain ev2 res2 where sc: "scan_options b pl s1 rs = (ev2, res2)"
      by (cases "scan_options b pl s1 rs")
    from Cons.prems(2) r sw Go sc have ev: "ev = ev1 @ ev2" and res2: "res2 = Go s'"
      by simp_all
    from Cons.IH [OF rs sc [unfolded res2]] r sw Go ev show ?thesis
      by simp
  qed (use Cons.prems(2) r sw in simp_all)
qed

text \<open>
  C10. When the option scan reaches \<^verbatim>\<open>--help\<close> or \<^verbatim>\<open>--version\<close> (the options before it did
  not end the process), the process prints the usage text, respectively the version line, to
  stdout and exits with code 0 there: whatever follows on the command line, and whether or
  not \<^verbatim>\<open>--device\<close> or \<^verbatim>\<open>--forward-port\<close> is given, the check that comes after the scan is
  not reached. With no options before it, this is \<^verbatim>\<open>hts --help\<close> exiting with 0, not 1.
\<close>

theorem help_and_version_exit_0_before_check:
  assumes "list_all (\<lambda>r. fst r \<noteq> -1) pre"
      and "scan_options b pl (defaults b argv0, globals0) pre = (ev, Go s)"
  shows "main b pl argv0 (pre @ (ch CHR ''h'', oa, oi) # rest) operands su ss =
           (ev @ usage b STDOUT argv0, Exited 0) \<and>
         main b pl argv0 (pre @ (ch CHR ''V'', oa, oi) # rest) operands su ss =
           (ev @ [Fprintf STDOUT (''hts ('' @ PACKAGE b @ '') '' @ VERSION b @ ''\<newline>'')],
            Exited 0)"
proof -
  obtain arg g where s: "s = (arg, g)" by (cases s)
  from assms(2) s have m: "me arg = argv0"
    using scan_options_me [of b pl "defaults b argv0" globals0 pre ev arg g]
    by (simp add: defaults_def)
  have h: "scan_options b pl s ((ch CHR ''h'', oa, oi) # rest) = (usage b STDOUT argv0, Exit 0)"
    using s m by (simp add: switch_c_def)
  have v: "scan_options b pl s ((ch CHR ''V'', oa, oi) # rest) =
             ([Fprintf STDOUT (''hts ('' @ PACKAGE b @ '') '' @ VERSION b @ ''\<newline>'')], Exit 0)"
    using s by (simp add: switch_c_def)
  show ?thesis
    using scan_options_append [OF assms, of "(ch CHR ''h'', oa, oi) # rest"]
          scan_options_append [OF assms, of "(ch CHR ''V'', oa, oi) # rest"] h v
    by (simp add: main_def parse_arguments_def)
qed

theorem help_and_version_exit_0_before_check_witness:
  "list_all (\<lambda>r. fst r \<noteq> -1) ([] :: getopt_ret list) \<and>
   scan_options sample_build sample_platform (defaults sample_build ''hts'', globals0) [] =
     ([], Go (defaults sample_build ''hts'', globals0)) \<and>
   main sample_build sample_platform ''hts'' [(ch CHR ''h'', None, 0)] [] sample_startup [] =
     (usage sample_build STDOUT ''hts'', Exited 0) \<and>
   main sample_build sample_platform ''hts'' [(ch CHR ''V'', None, 0)] [] sample_startup [] =
     ([Fprintf STDOUT ''hts (httptunnel) 3.3\<newline>''], Exited 0)"
proof -
  have a: "list_all (\<lambda>r. fst r \<noteq> -1) ([] :: getopt_ret list)" by simp
  have c: "scan_options sample_build sample_platform (defaults sample_build ''hts'', globals0) [] =
     ([], Go (defaults sample_build ''hts'', globals0))" by simp
  from help_and_version_exit_0_before_check [OF a c, of None 0 "[]" "[]" sample_startup "[]"]
  show ?thesis using a c by (simp add: sample_build_def)
qed

section \<open>The keep-alive timer\<close>

text \<open>
  The 64-bit value of which \<^verbatim>\<open>timeout\<close> receives the low 32 bits is the image of the
  integer \<open>1000 * (keep_alive - (t - last_tunnel_write))\<close>.
\<close>

lemma time_t_of_sint:
  "(1000 * (scast (ka :: c_int) - (t - lw)) :: time_t) =
     word_of_int (1000 * (sint ka - (sint t - sint lw)))"
proof -
  have "word_of_int (1000 * (sint ka - (sint t - sint lw))) =
        (1000 * (word_of_int (sint ka) - (word_of_int (sint t) - word_of_int (sint lw))) :: time_t)"
    by (simp only: of_int_diff of_int_mult of_int_numeral)
  also have "word_of_int (sint ka) = (scast ka :: time_t)"
    by (rule scast_eq [symmetric])
  also have "word_of_int (sint t) = t"
    by (simp only: of_int_sint scast_id)
  also have "word_of_int (sint lw) = lw"
    by (simp only: of_int_sint scast_id)
  finally show ?thesis by (rule sym)
qed

lemma int_of_time_t:
  "(ucast (word_of_int k :: time_t) :: c_int) = word_of_int k"
  by (rule ucast_down_wi) (simp add: is_down)

text \<open>Where that integer fits an \<^verbatim>\<open>int\<close>, the timeout is the one the formula gives.\<close>

lemma poll_timeout_exact:
  assumes "- (2 ^ 31) \<le> 1000 * (sint ka - (sint t - sint lw))"
      and "1000 * (sint ka - (sint t - sint lw)) < 2 ^ 31"
  shows "sint (poll_timeout ka t lw) = 1000 * max 0 (sint ka - (sint t - sint lw))"
proof -
  define M where "M = 1000 * (sint ka - (sint t - sint lw))"
  have w: "(ucast (1000 * (scast ka - (t - lw)) :: time_t) :: c_int) = word_of_int M"
    unfolding M_def time_t_of_sint by (rule int_of_time_t)
  have "signed_take_bit 31 M = M"
    using assms unfolding M_def by (intro signed_take_bit_int_eq_self) simp_all
  then have s: "sint (word_of_int M :: c_int) = M"
    by (simp add: sint_sbintrunc')
  have "poll_timeout ka t lw = (if sint (word_of_int M :: c_int) < 0 then 0 else word_of_int M)"
    unfolding poll_timeout_def Let_def w ..
  then have "sint (poll_timeout ka t lw) = max 0 M"
    using s by (simp add: max_def)
  then show ?thesis
    unfolding M_def by (simp add: max_def)
qed

text \<open>
  A pass of the bridge loop in which \<^verbatim>\<open>poll\<close> returns 0 makes exactly one call
  \<^verbatim>\<open>tunnel_padding (tunnel, 1)\<close>, sets \<^verbatim>\<open>last_tunnel_write\<close> to the clock read after it, leaves
  \<^verbatim>\<open>closed\<close> alone and goes round the loop again.
\<close>

lemma bridge_pass_timed_out:
  assumes "poll_r p = 0"
  shows "bridge_pass b arg tn fd st p =
           ([Log Annoying ''poll () ...'',
             Poll fd (tunnel_pollin_fd_r p)
               (poll_timeout (keep_alive arg) (time_r p) (last_tunnel_write st)),
             Log Annoying ''... = %d'',
             Log Verbose ''poll() timed out'',
             Tunnel_padding tn 1],
            Go (st\<lparr>last_tunnel_write := time_after_r p\<rparr>))"
  using assms by (simp add: bridge_pass_def Let_def)

lemma bridge_timed_out:
  assumes "poll_r p = 0" and "closed st = 0"
  shows "bridge b arg tn fd st (p # ps) =
           (fst (bridge_pass b arg tn fd st p) @
            fst (bridge b arg tn fd (st\<lparr>last_tunnel_write := time_after_r p\<rparr>) ps),
            snd (bridge b arg tn fd (st\<lparr>last_tunnel_write := time_after_r p\<rparr>) ps))"
  using assms by (simp add: bridge_pass_timed_out split: prod.splits)

text \<open>
  C3. The claim is what the source sets out to compute, and the code computes it as long as
  \<open>1000 * (keep_alive - (now - last_tunnel_write))\<close> fits an \<^verbatim>\<open>int\<close> (\<open>poll_timeout_exact\<close>).
  With \<^verbatim>\<open>hts -d /dev/ttyS0 -k 2147484\<close> it does not: the product 2147484000 is cut to
  32 bits, reads as negative and is replaced by 0, so the first \<^verbatim>\<open>poll\<close> of the session is
  given the timeout 0 where the claim says 2147484000 ms.
\<close>

theorem keep_alive_overflow_polls_with_timeout_0:
  "fst (main sample_build sample_platform ''hts''
          [(ch CHR ''d'', Some ''/dev/ttyS0'', 0), (ch CHR ''k'', Some ''2147484'', 0)] []
          sample_startup [session_closes]) ! 22 = Poll 4 6 0 \<and>
   sample_atoi (Some ''2147484'') = 2147484 \<and>
   time_r pass_timeout = 100 \<and> time0_r session_closes = 100 \<and>
   1000 * max 0 (sint (2147484 :: c_int) - (sint (100 :: time_t) - sint (100 :: time_t))) =
     (2147484000 :: int)"
  by (simp add: sample_defs model_defs dec.simps)

section \<open>The accept loop\<close>

lemma open_device_block_None:
  "device arg = None \<Longrightarrow> open_device_block arg fd s = ([], Go fd)"
  by (simp add: open_device_block_def)

lemma open_device_block_Some:
  \<open>device arg = Some path \<Longrightarrow>
   open_device_block arg fd s =
     (if open_device_r s = -1
      then ([Open_device path (open_device_r s), Log Debug ''open_device ("%s") = %d'',
             Log Error ''couldn't open %s: %s''], Exit 1)
      else ([Open_device path (open_device_r s), Log Debug ''open_device ("%s") = %d''],
            Go (open_device_r s)))\<close>
  by (simp add: open_device_block_def Let_def)

text \<open>None of the calls of the accept loop creates or destroys a tunnel.\<close>

lemma open_device_block_tunnel:
  "\<not> list_ex makes_or_destroys_tunnel (fst (open_device_block arg fd s))"
  by (simp add: open_device_block_def Let_def split: option.splits)

lemma forward_block_tunnel:
  "\<not> list_ex makes_or_destroys_tunnel (fst (forward_block arg fd s))"
  by (simp add: forward_block_def Let_def)

lemma bridge_pass_tunnel:
  "\<not> list_ex makes_or_destroys_tunnel (fst (bridge_pass b arg tn fd st p))"
  by (simp add: bridge_pass_def Let_def)

lemma bridge_tunnel:
  "\<not> list_ex makes_or_destroys_tunnel (fst (bridge b arg tn fd st ps))"
proof (induction ps arbitrary: st)
  case Nil
  show ?case by simp
next
  case (Cons p ps)
  obtain ev res where bp: "bridge_pass b arg tn fd st p = (ev, res)"
    by (cases "bridge_pass b arg tn fd st p")
  with bridge_pass_tunnel [of b arg tn fd st p]
  have ev: "\<not> list_ex makes_or_destroys_tunnel ev" by simp
  show ?case
  proof (cases res)
    case (Go st')
    with bp ev Cons.IH [of st'] show ?thesis
      by (auto split: prod.splits)
  qed (use bp ev in simp_all)
qed

lemma session_tunnel:
  "\<not> list_ex makes_or_destroys_tunnel (fst (session b arg tn fd s))"
proof -
  have od: "\<And>ev r. open_device_block arg fd s = (ev, r) \<Longrightarrow>
              \<not> list_ex makes_or_destroys_tunnel ev"
    using open_device_block_tunnel [of arg fd s] by simp
  have fb: "\<And>d ev r. forward_block arg d s = (ev, r) \<Longrightarrow>
              \<not> list_ex makes_or_destroys_tunnel ev"
    using forward_block_tunnel [of arg _ s] by (metis fst_conv)
  have br: "\<And>d st ev r. bridge b arg tn d st (passes s) = (ev, r) \<Longrightarrow>
              \<not> list_ex makes_or_destroys_tunnel ev"
    using bridge_tunnel [of b arg tn _ _ "passes s"] by (metis fst_conv)
  show ?thesis
    unfolding session_def Let_def
    by (auto split: prod.splits flow.splits dest: od fb br)
qed


text \<open>A pass of the accept loop that goes back to the top lets the loop go on.\<close>

lemma main_loop_Go:
  "session b arg tn fd s = (ev, Go fd') \<Longrightarrow>
   main_loop b arg tn fd (s # ss) =
     (ev @ fst (main_loop b arg tn fd' ss), snd (main_loop b arg tn fd' ss))"
  by (simp split: prod.splits)

text \<open>When the device block runs through, \<^verbatim>\<open>tunnel_accept\<close> is the next call.\<close>

lemma session_accept_fails:
  assumes "open_device_block arg fd s = (ev1, Go fd1)" and "tunnel_accept_r s = -1"
  shows "session b arg tn fd s =
           (Log Debug ''waiting for tunnel connection'' # ev1 @
            [Tunnel_accept tn, Log Notice ''couldn't accept connection: %s''], Go fd1)"
  using assms by (simp add: session_def)

lemma session_accepted:
  assumes "open_device_block arg fd s = (ev1, Go fd1)" and "tunnel_accept_r s \<noteq> -1"
  shows "\<exists>post. fst (session b arg tn fd s) =
           Log Debug ''waiting for tunnel connection'' # ev1 @
           Tunnel_accept tn # Log Notice ''connected to FIXME:hostname:port'' # post"
  using assms by (simp add: session_def Let_def split: prod.splits flow.splits)

text \<open>
  C7. When \<^verbatim>\<open>tunnel_accept\<close> is called (the device, in device mode, was opened) and returns
  -1, the pass of the outer loop logs the failure and goes back to the top of the loop: the
  process does not exit, the tunnel is neither destroyed nor created anew, and the loop goes
  on with the answers that follow exactly as it would from a fresh start with the current
  descriptor.
\<close>

theorem tunnel_accept_failure_ends_only_the_attempt:
  assumes "open_device_block arg fd s = (ev1, Go fd1)" and "tunnel_accept_r s = -1"
  shows "session b arg tn fd s =
           (Log Debug ''waiting for tunnel connection'' # ev1 @
            [Tunnel_accept tn, Log Notice ''couldn't accept connection: %s''], Go fd1) \<and>
         \<not> list_ex makes_or_destroys_tunnel (fst (session b arg tn fd s)) \<and>
         main_loop b arg tn fd (s # ss) =
           (fst (session b arg tn fd s) @ fst (main_loop b arg tn fd1 ss),
            snd (main_loop b arg tn fd1 ss))"
proof -
  note se = session_accept_fails [OF assms, of b tn]
  from main_loop_Go [OF se, of ss] se session_tunnel [of b arg tn fd s]
  show ?thesis by simp
qed

theorem tunnel_accept_failure_ends_only_the_attempt_witness:
  \<open>open_device_block (defaults sample_build ''hts''\<lparr>device := Some ''/dev/ttyS0''\<rparr>) (-1)
       session_accept_fails =
     ([Open_device ''/dev/ttyS0'' 3, Log Debug ''open_device ("%s") = %d''], Go 3) \<and>
   tunnel_accept_r session_accept_fails = -1 \<and>
   main_loop sample_build (defaults sample_build ''hts''\<lparr>device := Some ''/dev/ttyS0''\<rparr>) 1 (-1)
       [session_accept_fails, session_accept_fails_again] =
     ([Log Debug ''waiting for tunnel connection'', Open_device ''/dev/ttyS0'' 3,
       Log Debug ''open_device ("%s") = %d'', Tunnel_accept 1,
       Log Notice ''couldn't accept connection: %s'',
       Log Debug ''waiting for tunnel connection'', Open_device ''/dev/ttyS0'' 4,
       Log Debug ''open_device ("%s") = %d'', Tunnel_accept 1,
       Log Notice ''couldn't accept connection: %s''], Running)\<close>
proof -
  have a: \<open>open_device_block (defaults sample_build ''hts''\<lparr>device := Some ''/dev/ttyS0''\<rparr>) (-1)
       session_accept_fails =
     ([Open_device ''/dev/ttyS0'' 3, Log Debug ''open_device ("%s") = %d''], Go 3)\<close>
    by (simp add: open_device_block_def session_accept_fails_def defaults_def)
  have c: "tunnel_accept_r session_accept_fails = -1"
    by (simp add: session_accept_fails_def)
  from tunnel_accept_failure_ends_only_the_attempt [OF a c, of sample_build 1 "[session_accept_fails_again]"]
  show ?thesis
    using a c
    by (simp add: session_def open_device_block_def session_accept_fails_def
          session_accept_fails_again_def defaults_def)
qed

section \<open>Descriptors\<close>

lemma descriptors_append:
  "descriptors (ev @ ev') tbl = descriptors ev' (descriptors ev tbl)"
proof (induction ev arbitrary: tbl)
  case Nil
  show ?case by simp
next
  case (Cons e ev)
  then show ?case by (cases e) simp_all
qed

lemma failed_accepts_accumulate:
  assumes "device arg = Some path"
      and "list_all (\<lambda>s. open_device_r s \<noteq> -1 \<and> tunnel_accept_r s = -1) ss"
  shows "descriptors (fst (main_loop b arg tn fd ss)) tbl = rev (map open_device_r ss) @ tbl \<and>
         snd (main_loop b arg tn fd ss) = Running"
  using assms(2)
proof (induction ss arbitrary: fd tbl)
  case Nil
  show ?case by simp
next
  case (Cons s ss)
  from Cons.prems have o: "open_device_r s \<noteq> -1" and a: "tunnel_accept_r s = -1"
    and rest: "list_all (\<lambda>s. open_device_r s \<noteq> -1 \<and> tunnel_accept_r s = -1) ss"
    by simp_all
  from o have od: \<open>open_device_block arg fd s =
      ([Open_device path (open_device_r s), Log Debug ''open_device ("%s") = %d''],
       Go (open_device_r s))\<close>
    by (simp add: open_device_block_Some [OF assms(1)])
  note se = session_accept_fails [OF od a, of b tn]
  have d: "descriptors (fst (session b arg tn fd s)) tbl = open_device_r s # tbl"
    using o by (simp add: se)
  from main_loop_Go [OF se, of ss] Cons.IH [OF rest, of "open_device_r s" "open_device_r s # tbl"] d se
  show ?case
    by (simp add: descriptors_append)
qed

text \<open>
  C9. In device mode every pass of the outer loop calls \<^verbatim>\<open>open_device\<close> first, and
  \<^verbatim>\<open>tunnel_accept\<close> only after it has returned a descriptor. When \<^verbatim>\<open>tunnel_accept\<close> then
  fails, the pass ends without a \<^verbatim>\<open>close\<close>: the descriptor just opened is added to those
  that are open, and after any number of failed accepts in a row all their descriptors are.
\<close>

theorem failed_accept_leaves_device_descriptor_open:
  assumes \<open>device arg = Some path\<close>
  shows \<open>(\<exists>rest. fst (session b arg tn fd s) =
            Log Debug ''waiting for tunnel connection'' #
            Open_device path (open_device_r s) # Log Debug ''open_device ("%s") = %d'' # rest \<and>
            (open_device_r s \<noteq> -1 \<longrightarrow> (\<exists>e post. rest = Tunnel_accept tn # e # post))) \<and>
         (open_device_r s \<noteq> -1 \<and> tunnel_accept_r s = -1 \<longrightarrow>
            session b arg tn fd s =
              ([Log Debug ''waiting for tunnel connection'',
                Open_device path (open_device_r s), Log Debug ''open_device ("%s") = %d'',
                Tunnel_accept tn, Log Notice ''couldn't accept connection: %s''],
               Go (open_device_r s)) \<and>
            descriptors (fst (session b arg tn fd s)) tbl = open_device_r s # tbl) \<and>
         (list_all (\<lambda>s. open_device_r s \<noteq> -1 \<and> tunnel_accept_r s = -1) ss \<longrightarrow>
            descriptors (fst (main_loop b arg tn fd ss)) tbl = rev (map open_device_r ss) @ tbl \<and>
            snd (main_loop b arg tn fd ss) = Running)\<close>
proof -
  note od = open_device_block_Some [OF assms, of fd s]
  have first: \<open>\<exists>rest. fst (session b arg tn fd s) =
            Log Debug ''waiting for tunnel connection'' #
            Open_device path (open_device_r s) # Log Debug ''open_device ("%s") = %d'' # rest \<and>
            (open_device_r s \<noteq> -1 \<longrightarrow> (\<exists>e post. rest = Tunnel_accept tn # e # post))\<close>
  proof (cases "open_device_r s = -1")
    case True
    with od show ?thesis by (simp add: session_def)
  next
    case False
    with od have g: \<open>open_device_block arg fd s =
        ([Open_device path (open_device_r s), Log Debug ''open_device ("%s") = %d''],
         Go (open_device_r s))\<close>
      by simp
    show ?thesis
    proof (cases "tunnel_accept_r s = -1")
      case True
      from session_accept_fails [OF g True, of b tn] False show ?thesis by simp
    next
      case acc: False
      from session_accepted [OF g acc, of b tn] False show ?thesis by auto
    qed
  qed
  have second: \<open>open_device_r s \<noteq> -1 \<and> tunnel_accept_r s = -1 \<longrightarrow>
            session b arg tn fd s =
              ([Log Debug ''waiting for tunnel connection'',
                Open_device path (open_device_r s), Log Debug ''open_device ("%s") = %d'',
                Tunnel_accept tn, Log Notice ''couldn't accept connection: %s''],
               Go (open_device_r s)) \<and>
            descriptors (fst (session b arg tn fd s)) tbl = open_device_r s # tbl\<close>
    using od by (simp add: session_def)
  from first second failed_accepts_accumulate [OF assms, of ss b tn fd tbl]
  show ?thesis by blast
qed

theorem failed_accept_leaves_device_descriptor_open_witness:
  \<open>device (defaults sample_build ''hts''\<lparr>device := Some ''/dev/ttyS0''\<rparr>) = Some ''/dev/ttyS0'' \<and>
   open_device_r session_accept_fails \<noteq> -1 \<and> tunnel_accept_r session_accept_fails = -1 \<and>
   session sample_build (defaults sample_build ''hts''\<lparr>device := Some ''/dev/ttyS0''\<rparr>) 1 (-1)
       session_accept_fails =
     ([Log Debug ''waiting for tunnel connection'', Open_device ''/dev/ttyS0'' 3,
       Log Debug ''open_device ("%s") = %d'', Tunnel_accept 1,
       Log Notice ''couldn't accept connection: %s''], Go 3) \<and>
   list_all (\<lambda>s. open_device_r s \<noteq> -1 \<and> tunnel_accept_r s = -1)
     [session_accept_fails, session_accept_fails_again] \<and>
   descriptors
     (fst (main_loop sample_build (defaults sample_build ''hts''\<lparr>device := Some ''/dev/ttyS0''\<rparr>)
             1 (-1) [session_accept_fails, session_accept_fails_again])) [] = [4, 3]\<close>
proof -
  have d: \<open>device (defaults sample_build ''hts''\<lparr>device := Some ''/dev/ttyS0''\<rparr>) =
           Some ''/dev/ttyS0''\<close>
    by simp
  have f: \<open>open_device_r session_accept_fails \<noteq> -1 \<and> tunnel_accept_r session_accept_fails = -1\<close>
    by (simp add: session_accept_fails_def)
  have l: \<open>list_all (\<lambda>s. open_device_r s \<noteq> -1 \<and> tunnel_accept_r s = -1)
     [session_accept_fails, session_accept_fails_again]\<close>
    by (simp add: session_accept_fails_def session_accept_fails_again_def)
  from failed_accept_leaves_device_descriptor_open
         [OF d, of sample_build 1 "-1" session_accept_fails "[]"
            "[session_accept_fails, session_accept_fails_again]"] f l
  have \<open>session sample_build (defaults sample_build ''hts''\<lparr>device := Some ''/dev/ttyS0''\<rparr>) 1 (-1)
       session_accept_fails =
     ([Log Debug ''waiting for tunnel connection'',
       Open_device ''/dev/ttyS0'' (open_device_r session_accept_fails),
       Log Debug ''open_device ("%s") = %d'', Tunnel_accept 1,
       Log Notice ''couldn't accept connection: %s''], Go (open_device_r session_accept_fails))\<close>
    and \<open>descriptors
     (fst (main_loop sample_build (defaults sample_build ''hts''\<lparr>device := Some ''/dev/ttyS0''\<rparr>)
             1 (-1) [session_accept_fails, session_accept_fails_again])) [] =
       rev (map open_device_r [session_accept_fails, session_accept_fails_again]) @ []\<close>
    by blast+
  then show ?thesis
    using d f l by (simp add: session_accept_fails_def session_accept_fails_again_def)
qed

section \<open>The end of a session\<close>

text \<open>The bridge loop is left only with \<^verbatim>\<open>closed\<close> set.\<close>

lemma bridge_Go_closed:
  "bridge b arg tn fd st ps = (ev, Go st') \<Longrightarrow> closed st' \<noteq> 0"
proof (induction ps arbitrary: st ev)
  case Nil
  then show ?case by (simp split: if_splits)
next
  case (Cons p ps)
  show ?case
  proof (cases "closed st = 0")
    case False
    with Cons.prems show ?thesis by simp
  next
    case True
    obtain ev1 res1 where bp: "bridge_pass b arg tn fd st p = (ev1, res1)"
      by (cases "bridge_pass b arg tn fd st p")
    show ?thesis
    proof (cases res1)
      case (Go st1)
      obtain ev2 res2 where br: "bridge b arg tn fd st1 ps = (ev2, res2)"
        by (cases "bridge b arg tn fd st1 ps")
      from Cons.prems True bp Go br have "res2 = Go st'" by simp
      with br Cons.IH show ?thesis by blast
    qed (use Cons.prems True bp in simp_all)
  qed
qed

lemma session_Go_cases:
  assumes "session b arg tn fd s = (ev, Go fd')" and "tunnel_accept_r s \<noteq> -1"
  shows "\<exists>ev0 ev4 st.
           bridge b arg tn fd' \<lparr>closed = 0, last_tunnel_write = time0_r s\<rparr> (passes s) =
             (ev4, Go st) \<and>
           ev = ev0 @ ev4 @ [Log Debug ''closing tunnel'', Close fd', Tunnel_close tn,
                        Log Notice ''disconnected from FIXME:hostname:port'']"
  using assms
  by (auto simp: session_def Let_def split: prod.splits flow.splits)

section \<open>Exit codes\<close>

text \<open>The option scan ends the process with 0 for \<^verbatim>\<open>-h\<close> and \<^verbatim>\<open>-V\<close>, and with 1 otherwise.\<close>

lemma switch_c_exit:
  "switch_c b pl (arg, g) (c, oa, oi) = (ev, Exit n) \<Longrightarrow>
   (n = 0 \<and> (c = ch CHR ''h'' \<or> c = ch CHR ''V'')) \<or> n = 1"
  by (auto simp: switch_c_def Let_def split: if_splits option.splits prod.splits)

lemma switch_c_no_Wait: "snd (switch_c b pl s r) \<noteq> Wait"
  by (cases s; cases r)
     (auto simp: switch_c_def Let_def split: if_splits option.splits prod.splits)

lemma scan_options_exit:
  "scan_options b pl s opts = (ev, Exit n) \<Longrightarrow>
   (n = 0 \<and> (given CHR ''h'' opts \<or> given CHR ''V'' opts)) \<or> n = 1"
proof (induction opts arbitrary: s ev)
  case Nil
  then show ?case by simp
next
  case (Cons r rs)
  obtain c oa oi where r: "r = (c, oa, oi)" by (cases r)
  obtain arg g where s: "s = (arg, g)" by (cases s)
  show ?case
  proof (cases "c = -1")
    case True
    with Cons.prems r show ?thesis by simp
  next
    case False
    obtain ev1 res1 where sw: "switch_c b pl (arg, g) (c, oa, oi) = (ev1, res1)"
      by (cases "switch_c b pl (arg, g) (c, oa, oi)")
    show ?thesis
    proof (cases res1)
      case (Exit m)
      with Cons.prems r s False sw have "m = n" by simp
      with switch_c_exit [of b pl arg g c oa oi ev1 m] sw Exit r False show ?thesis
        by (auto simp: given_Cons)
    next
      case Wait
      with Cons.prems r s False sw show ?thesis by simp
    next
      case (Go s1)
      obtain ev2 res2 where sc: "scan_options b pl s1 rs = (ev2, res2)"
        by (cases "scan_options b pl s1 rs")
      from Cons.prems r s False sw Go sc have "res2 = Exit n" by simp
      with sc Cons.IH have "(n = 0 \<and> (given CHR ''h'' rs \<or> given CHR ''V'' rs)) \<or> n = 1"
        by blast
      with r False show ?thesis by (auto simp: given_Cons)
    qed
  qed
qed

lemma scan_options_no_Wait: "snd (scan_options b pl s opts) \<noteq> Wait"
proof (induction opts arbitrary: s)
  case Nil
  show ?case by simp
next
  case (Cons r rs)
  obtain ev1 res1 where sw: "switch_c b pl s r = (ev1, res1)"
    by (cases "switch_c b pl s r")
  with switch_c_no_Wait [of b pl s r] have nw: "res1 \<noteq> Wait" by simp
  show ?case
  proof (cases res1)
    case (Go s1)
    with sw Cons.IH [of s1] show ?thesis by (auto split: prod.splits)
  qed (use sw nw in simp_all)
qed

lemma parse_arguments_exit:
  assumes "parse_arguments b pl argv0 opts operands = (ev, Exit n)"
  shows "(n = 0 \<and> (given CHR ''h'' opts \<or> given CHR ''V'' opts)) \<or> n = 1"
proof -
  obtain ev0 res0 where sc: "scan_options b pl (defaults b argv0, globals0) opts = (ev0, res0)"
    by (cases "scan_options b pl (defaults b argv0, globals0) opts")
  show ?thesis
  proof (cases res0)
    case (Exit m)
    with assms sc have "m = n" by (simp add: parse_arguments_def)
    with scan_options_exit [OF sc [unfolded Exit]] show ?thesis by simp
  next
    case Wait
    with assms sc show ?thesis by (simp add: parse_arguments_def)
  next
    case (Go s)
    with assms sc show ?thesis
      by (cases s) (auto simp: parse_arguments_def Let_def split: if_splits)
  qed
qed

lemma startup_exit: "startup b pl arg g su = (ev, Exit n) \<Longrightarrow> n = 1"
  by (auto simp: startup_def Let_def split: option.splits)







section \<open>Configuration errors\<close>




lemma main_after_parse:
  assumes "parse_arguments b pl argv0 opts operands = (ev0, Go (a, g))"
  shows "main b pl argv0 opts operands su ss =
           (case startup b pl a g su of
              (ev1, Exit n) \<Rightarrow> (ev0 @ ev1, Exited n)
            | (ev1, Wait) \<Rightarrow> (ev0 @ ev1, Running)
            | (ev1, Go (tn, g')) \<Rightarrow>
                (ev0 @ ev1 @ fst (main_loop b a tn (-1) ss), snd (main_loop b a tn (-1) ss)))"
  using assms by (simp add: main_def split: prod.splits flow.splits)




section \<open>The pid file\<close>

text \<open>\<open>dec\<close> prints the decimal digits of its argument.\<close>

lemma digit_val_nth: "k < 10 \<Longrightarrow> digit_val (''0123456789'' ! k) = k"
proof -
  assume "k < 10"
  then have "k \<in> {0, 1, 2, 3, 4, 5, 6, 7, 8, 9}" by auto
  then show ?thesis by (auto simp: digit_val_def)
qed

lemma dec_val_snoc: "dec_val (xs @ [c]) = 10 * dec_val xs + digit_val c"
  by (simp add: dec_val_def)

lemma dec_val_single: "dec_val [c] = digit_val c"
  by (simp add: dec_val_def)

lemma dec_val_dec: "dec_val (dec n) = n"
proof (induction n rule: dec.induct)
  case (1 n)
  show ?case
  proof (cases "n < 10")
    case True
    then show ?thesis
      by (subst dec.simps) (simp add: dec_val_single digit_val_nth)
  next
    case False
    with "1" have ih: "dec_val (dec (n div 10)) = n div 10" by simp
    have "n mod 10 < 10" by simp
    then have d: "digit_val (''0123456789'' ! (n mod 10)) = n mod 10"
      by (rule digit_val_nth)
    from False show ?thesis
      by (subst dec.simps) (simp add: dec_val_snoc ih d)
  qed
qed

text \<open>What a trace writes to a stream.\<close>

lemma written_to_append: "written_to f (ev @ ev') = written_to f ev @ written_to f ev'"
proof (induction ev)
  case Nil
  show ?case by simp
next
  case (Cons e ev)
  then show ?case by (cases e) simp_all
qed

lemma written_to_none: "\<not> list_ex is_fprintf ev \<Longrightarrow> written_to f ev = []"
proof (induction ev)
  case Nil
  show ?case by simp
next
  case (Cons e ev)
  then show ?case by (cases e) simp_all
qed

text \<open>Reading the command line writes to stdout and stderr only.\<close>

lemma switch_c_written: "written_to (Named path) (fst (switch_c b pl s r)) = []"
  by (cases s; cases r)
     (auto simp: switch_c_def usage_def Let_def split: option.splits prod.splits)

lemma scan_options_written: "written_to (Named path) (fst (scan_options b pl s opts)) = []"
proof (induction opts arbitrary: s)
  case Nil
  show ?case by simp
next
  case (Cons r rs)
  obtain ev res where sw: "switch_c b pl s r = (ev, res)"
    by (cases "switch_c b pl s r")
  with switch_c_written [of path b pl s r] have ev: "written_to (Named path) ev = []"
    by simp
  show ?case
  proof (cases res)
    case (Go s')
    with sw ev Cons.IH [of s'] show ?thesis
      by (auto simp: written_to_append split: prod.splits)
  qed (use sw ev in simp_all)
qed

lemma parse_arguments_written:
  "written_to (Named path) (fst (parse_arguments b pl argv0 opts operands)) = []"
proof -
  have sc: "written_to (Named path)
              (fst (scan_options b pl (defaults b argv0, globals0) opts)) = []"
    by (rule scan_options_written)
  obtain t where u: "\<And>m. usage b STDERR m = [Fprintf STDERR (t m)]"
    using usage_single by metis
  show ?thesis
    using sc unfolding parse_arguments_def
    by (auto simp: u Let_def written_to_append split: prod.splits flow.splits)
qed

text \<open>The accept loop does not print.\<close>

lemma bridge_pass_prints: "\<not> list_ex is_fprintf (fst (bridge_pass b arg tn fd st p))"
  by (simp add: bridge_pass_def Let_def)

lemma bridge_prints: "\<not> list_ex is_fprintf (fst (bridge b arg tn fd st ps))"
proof (induction ps arbitrary: st)
  case Nil
  show ?case by simp
next
  case (Cons p ps)
  obtain ev res where bp: "bridge_pass b arg tn fd st p = (ev, res)"
    by (cases "bridge_pass b arg tn fd st p")
  with bridge_pass_prints [of b arg tn fd st p]
  have ev: "\<not> list_ex is_fprintf ev" by simp
  show ?case
  proof (cases res)
    case (Go st')
    with bp ev Cons.IH [of st'] show ?thesis
      by (auto split: prod.splits)
  qed (use bp ev in simp_all)
qed

lemma session_prints: "\<not> list_ex is_fprintf (fst (session b arg tn fd s))"
proof -
  have od: "\<And>ev r. open_device_block arg fd s = (ev, r) \<Longrightarrow> \<not> list_ex is_fprintf ev"
    by (auto simp: open_device_block_def Let_def split: option.splits if_splits)
  have fb: "\<And>d ev r. forward_block arg d s = (ev, r) \<Longrightarrow> \<not> list_ex is_fprintf ev"
    by (auto simp: forward_block_def Let_def split: if_splits)
  have br: "\<And>d st ev r. bridge b arg tn d st (passes s) = (ev, r) \<Longrightarrow>
              \<not> list_ex is_fprintf ev"
    using bridge_prints [of b arg tn _ _ "passes s"] by (metis fst_conv)
  show ?thesis
    unfolding session_def Let_def
    by (auto split: prod.splits flow.splits dest: od fb br)
qed

lemma main_loop_prints: "\<not> list_ex is_fprintf (fst (main_loop b arg tn fd ss))"
proof (induction ss arbitrary: fd)
  case Nil
  show ?case by simp
next
  case (Cons s ss)
  obtain ev res where se: "session b arg tn fd s = (ev, res)"
    by (cases "session b arg tn fd s")
  with session_prints [of b arg tn fd s]
  have ev: "\<not> list_ex is_fprintf ev" by simp
  show ?case
  proof (cases res)
    case (Go fd')
    with se ev Cons.IH [of fd'] show ?thesis
      by (auto split: prod.splits)
  qed (use se ev in simp_all)
qed

text \<open>Start-up with a pid file that can be opened.\<close>

lemma write_pid_file_opened:
  assumes "pid_filename arg = Some path" and "fopen pl (Some path) ''w+'' = Some (Named path)"
  shows "written_to (Named path) (write_pid_file pl arg su) =
           printf_d (getpid_r su) @ ''\<newline>'' \<and>
         Fclose (Named path) \<in> set (write_pid_file pl arg su)"
  using assms by (simp add: write_pid_file_def)

lemma startup_pid_file:
  assumes "pid_filename arg = Some path" and "fopen pl (Some path) ''w+'' = Some (Named path)"
      and "tunnel_new_server_r su = Some tn"
  shows "\<exists>ev g'. startup b pl arg g su = (ev, Go (tn, g')) \<and>
           written_to (Named path) ev = printf_d (getpid_r su) @ ''\<newline>'' \<and>
           Fclose (Named path) \<in> set ev"
proof -
  note w = write_pid_file_opened [OF assms(1,2), of su]
  show ?thesis
    using assms(3) w
    by (simp add: startup_def Let_def setopt_block_def written_to_append split del: if_split)
       (simp add: written_to_none)
qed


text \<open>
  C8. When the command line is accepted with \<^verbatim>\<open>--pid-file PATH\<close>, the tunnel is created and
  \<^verbatim>\<open>fopen (PATH, "w+")\<close> gives the stream on that file, then everything the process ever
  writes to the file is \<^verbatim>\<open>(int) getpid ()\<close> in decimal followed by one newline. It is
  written, and the file closed, before the first call of the accept loop. Decimal: for a
  pid that is not negative, the digits read back as the pid.
\<close>

theorem pid_file_holds_decimal_pid:
  assumes "parse_arguments b pl argv0 opts operands = (ev0, Go (arg, g))"
      and "pid_filename arg = Some path"
      and "fopen pl (Some path) ''w+'' = Some (Named path)"
      and "tunnel_new_server_r su = Some tn"
  shows "\<exists>pre. main b pl argv0 opts operands su ss =
                 (pre @ fst (main_loop b arg tn (-1) ss), snd (main_loop b arg tn (-1) ss)) \<and>
               written_to (Named path) pre = printf_d (getpid_r su) @ ''\<newline>'' \<and>
               Fclose (Named path) \<in> set pre \<and>
               written_to (Named path) (fst (main b pl argv0 opts operands su ss)) =
                 printf_d (getpid_r su) @ ''\<newline>'' \<and>
               (0 \<le> sint (getpid_r su) \<longrightarrow>
                  dec_val (printf_d (getpid_r su)) = nat (sint (getpid_r su)))"
proof -
  from startup_pid_file [OF assms(2-4), of b g] obtain ev1 g' where
    st: "startup b pl arg g su = (ev1, Go (tn, g'))"
    and w1: "written_to (Named path) ev1 = printf_d (getpid_r su) @ ''\<newline>''"
    and c1: "Fclose (Named path) \<in> set ev1"
    by blast
  have w0: "written_to (Named path) ev0 = []"
    using parse_arguments_written [of path b pl argv0 opts operands] assms(1) by simp
  have wl: "written_to (Named path) (fst (main_loop b arg tn (-1) ss)) = []"
    by (rule written_to_none) (rule main_loop_prints)
  have m: "main b pl argv0 opts operands su ss =
             ((ev0 @ ev1) @ fst (main_loop b arg tn (-1) ss), snd (main_loop b arg tn (-1) ss))"
    using main_after_parse [OF assms(1), of su ss] st by simp
  have d: "0 \<le> sint (getpid_r su) \<longrightarrow>
             dec_val (printf_d (getpid_r su)) = nat (sint (getpid_r su))"
    by (simp add: printf_d_def dec_val_dec)
  have "written_to (Named path) (ev0 @ ev1) = printf_d (getpid_r su) @ ''\<newline>''"
    by (simp add: written_to_append w0 w1)
  moreover have "Fclose (Named path) \<in> set (ev0 @ ev1)"
    using c1 by simp
  moreover have "written_to (Named path) (fst (main b pl argv0 opts operands su ss)) =
                   printf_d (getpid_r su) @ ''\<newline>''"
    by (simp add: m written_to_append w0 w1 wl)
  ultimately show ?thesis
    using m d by blast
qed

theorem pid_file_holds_decimal_pid_witness:
  "parse_arguments sample_build sample_platform ''hts''
       [(ch CHR ''d'', Some ''/dev/ttyS0'', 0), (ch CHR ''p'', Some ''/run/hts.pid'', 0)] [] =
     ([], Go (args_device\<lparr>pid_filename := Some ''/run/hts.pid''\<rparr>, globals0)) \<and>
   pid_filename (args_device\<lparr>pid_filename := Some ''/run/hts.pid''\<rparr>) = Some ''/run/hts.pid'' \<and>
   fopen sample_platform (Some ''/run/hts.pid'') ''w+'' = Some (Named ''/run/hts.pid'') \<and>
   tunnel_new_server_r sample_startup = Some 1 \<and>
   getpid_r sample_startup = 4242 \<and>
   written_to (Named ''/run/hts.pid'')
     (fst (main sample_build sample_platform ''hts''
             [(ch CHR ''d'', Some ''/dev/ttyS0'', 0), (ch CHR ''p'', Some ''/run/hts.pid'', 0)] []
             sample_startup [session_closes])) = ''4242\<newline>''"
proof -
  have a: "parse_arguments sample_build sample_platform ''hts''
       [(ch CHR ''d'', Some ''/dev/ttyS0'', 0), (ch CHR ''p'', Some ''/run/hts.pid'', 0)] [] =
     ([], Go (args_device\<lparr>pid_filename := Some ''/run/hts.pid''\<rparr>, globals0))"
    by (simp add: sample_defs parse_arguments_def switch_c_def defaults_def globals0_def)
  have p: "pid_filename (args_device\<lparr>pid_filename := Some ''/run/hts.pid''\<rparr>) =
           Some ''/run/hts.pid''"
    by simp
  have f: "fopen sample_platform (Some ''/run/hts.pid'') ''w+'' = Some (Named ''/run/hts.pid'')"
    by (simp add: sample_platform_def)
  have t: "tunnel_new_server_r sample_startup = Some 1"
    and g: "getpid_r sample_startup = 4242"
    by (simp_all add: sample_startup_def)
  from pid_file_holds_decimal_pid [OF a p f t, of "[session_closes]"]
  have "written_to (Named ''/run/hts.pid'')
     (fst (main sample_build sample_platform ''hts''
             [(ch CHR ''d'', Some ''/dev/ttyS0'', 0), (ch CHR ''p'', Some ''/run/hts.pid'', 0)] []
             sample_startup [session_closes])) = printf_d (getpid_r sample_startup) @ ''\<newline>''"
    by blast
  then show ?thesis
    using a p f t g by (simp add: printf_d_def dec.simps)
qed

section \<open>The keep-alive timer and the range of int\<close>

text \<open>
  C2. What the claim says of a pass whose \<^verbatim>\<open>poll\<close> returns 0 holds (\<open>bridge_pass_timed_out\<close>,
  \<open>bridge_timed_out\<close>): one \<^verbatim>\<open>tunnel_padding (tunnel, 1)\<close>, \<^verbatim>\<open>last_tunnel_write\<close> set to the
  clock, round the loop again. What it says of the time does not, where
  \<open>1000 * (keep_alive - (now - last_tunnel_write))\<close> leaves the range of \<^verbatim>\<open>int\<close>, the defect
  of C3. With \<^verbatim>\<open>hts -d /dev/ttyS0 -k 2147484\<close> the first wait of a session is armed with
  timeout 0: it times out, and the padding octet is sent, with the bridge idle for 0
  seconds and not for \<open>keep_alive\<close>. With \<^verbatim>\<open>hts -d /dev/ttyS0\<close> (\<open>keep_alive\<close> is 5) and the
  clock 2147489 seconds past the last tunnel write, the wait is armed with 2147483296 ms,
  not with 0: the padding octet does not follow within \<open>keep_alive\<close> seconds of idleness.
\<close>

theorem keep_alive_overflow_breaks_idle_bound:
  "sample_atoi (Some ''2147484'') = 2147484 \<and>
   time0_r session_closes = 100 \<and> time_r pass_timeout_at_once = 100 \<and>
   poll_r pass_timeout_at_once = 0 \<and>
   take 4 (drop 22 (fst (main sample_build sample_platform ''hts''
          [(ch CHR ''d'', Some ''/dev/ttyS0'', 0), (ch CHR ''k'', Some ''2147484'', 0)] []
          sample_startup [session_closes\<lparr>passes := [pass_timeout_at_once]\<rparr>]))) =
     [Poll 4 6 0, Log Annoying ''... = %d'', Log Verbose ''poll() timed out'',
      Tunnel_padding 1 1] \<and>
   DEFAULT_KEEP_ALIVE sample_build = 5 \<and>
   sint (time_r pass_after_clock_jump) - sint (time0_r session_closes) = 2147489 \<and>
   take 4 (drop 22 (fst (main sample_build sample_platform ''hts'' opts_device []
          sample_startup [session_closes\<lparr>passes := [pass_after_clock_jump]\<rparr>]))) =
     [Poll 4 6 2147483296, Log Annoying ''... = %d'', Log Verbose ''poll() timed out'',
      Tunnel_padding 1 1] \<and>
   1000 * max 0 (5 - (2147489 :: int)) = 0"
  by (simp add: sample_defs model_defs dec.simps)

section \<open>Passes of the two loops, one after the other\<close>












lemma startup_not_created:
  "tunnel_new_server_r su = None \<Longrightarrow> snd (startup b pl arg g su) = Exit 1"
  by (simp add: startup_def Let_def)




section \<open>A closed session\<close>




section \<open>What ends the process and what ends a session\<close>








end
